theory Spec2Isabelle
  imports Complex_Main
begin

section \<open>Floating-point values and numpy arrays\<close>

text \<open>
  A numpy float is modelled as the real number it denotes, or one of the IEEE special
  values. The arithmetic below is exact on finite values (signed zeros are not modelled)
  and is the one numpy applies elementwise to arrays, where a division by zero yields
  \<open>inf\<close> or \<open>nan\<close> (with a warning) and raises nothing. The rounding of the
  conversion to \<open>float32\<close> and of the \<open>float32\<close> operations of the decomposition's
  return statement is modelled in the section on single precision.
\<close>

datatype npfloat = Fin real | PInf | NInf | NaN

fun is_fin :: "npfloat \<Rightarrow> bool" where
  "is_fin (Fin _) = True"
| "is_fin _ = False"

fun real_of :: "npfloat \<Rightarrow> real" where
  "real_of (Fin r) = r"
| "real_of _ = 0"

text \<open>The product of \<open>+inf\<close> with a finite factor: \<open>inf * 0\<close> is \<open>nan\<close>.\<close>

definition inf_times :: "real \<Rightarrow> npfloat" where
  "inf_times r = (if r = 0 then NaN else if 0 < r then PInf else NInf)"

fun fneg :: "npfloat \<Rightarrow> npfloat" where
  "fneg (Fin a) = Fin (- a)"
| "fneg PInf = NInf"
| "fneg NInf = PInf"
| "fneg NaN = NaN"

fun fadd :: "npfloat \<Rightarrow> npfloat \<Rightarrow> npfloat" where
  "fadd (Fin a) (Fin b) = Fin (a + b)"
| "fadd (Fin a) PInf = PInf"
| "fadd (Fin a) NInf = NInf"
| "fadd (Fin a) NaN = NaN"
| "fadd PInf (Fin b) = PInf"
| "fadd PInf PInf = PInf"
| "fadd PInf NInf = NaN"
| "fadd PInf NaN = NaN"
| "fadd NInf (Fin b) = NInf"
| "fadd NInf PInf = NaN"
| "fadd NInf NInf = NInf"
| "fadd NInf NaN = NaN"
| "fadd NaN _ = NaN"

definition fsub :: "npfloat \<Rightarrow> npfloat \<Rightarrow> npfloat" where
  "fsub a b = fadd a (fneg b)"

fun fmul :: "npfloat \<Rightarrow> npfloat \<Rightarrow> npfloat" where
  "fmul (Fin a) (Fin b) = Fin (a * b)"
| "fmul (Fin a) PInf = inf_times a"
| "fmul (Fin a) NInf = inf_times (- a)"
| "fmul (Fin a) NaN = NaN"
| "fmul PInf (Fin b) = inf_times b"
| "fmul PInf PInf = PInf"
| "fmul PInf NInf = NInf"
| "fmul PInf NaN = NaN"
| "fmul NInf (Fin b) = inf_times (- b)"
| "fmul NInf PInf = NInf"
| "fmul NInf NInf = PInf"
| "fmul NInf NaN = NaN"
| "fmul NaN _ = NaN"

fun fdiv :: "npfloat \<Rightarrow> npfloat \<Rightarrow> npfloat" where
  "fdiv (Fin a) (Fin b) = (if b = 0 then inf_times a else Fin (a / b))"
| "fdiv (Fin a) PInf = Fin 0"
| "fdiv (Fin a) NInf = Fin 0"
| "fdiv (Fin a) NaN = NaN"
| "fdiv PInf (Fin b) = (if 0 \<le> b then PInf else NInf)"
| "fdiv NInf (Fin b) = (if 0 \<le> b then NInf else PInf)"
| "fdiv PInf _ = NaN"
| "fdiv NInf _ = NaN"
| "fdiv NaN _ = NaN"

fun fsqrt :: "npfloat \<Rightarrow> npfloat" where
  "fsqrt (Fin a) = (if a < 0 then NaN else Fin (sqrt a))"
| "fsqrt PInf = PInf"
| "fsqrt NInf = NaN"
| "fsqrt NaN = NaN"

text \<open>
  Arrays carry their element type as a tag. A one-dimensional array has shape
  \<open>(length (vdata v),)\<close>; a two-dimensional array has shape \<open>(nrows, ncols)\<close> and is
  stored by rows.
\<close>

datatype dtype = Float32 | Float64

fun promote :: "dtype \<Rightarrow> dtype \<Rightarrow> dtype" where
  "promote Float32 Float32 = Float32"
| "promote _ _ = Float64"

record vec =
  vdtype :: dtype
  vdata :: "npfloat list"

record mat =
  mdtype :: dtype
  nrows :: nat
  ncols :: nat
  mrows :: "npfloat list list"

definition wf_mat :: "mat \<Rightarrow> bool" where
  "wf_mat M \<longleftrightarrow> length (mrows M) = nrows M \<and> (\<forall>r \<in> set (mrows M). length r = ncols M)"

definition entry :: "mat \<Rightarrow> nat \<Rightarrow> nat \<Rightarrow> npfloat" where
  "entry M v e = mrows M ! v ! e"

definition column :: "mat \<Rightarrow> nat \<Rightarrow> npfloat list" where
  "column M e = map (\<lambda>r. r ! e) (mrows M)"

text \<open>\<open>np.ones(n, dtype=np.float)\<close>; \<open>np.float\<close> is the 64-bit float.\<close>

definition np_ones :: "nat \<Rightarrow> vec" where
  "np_ones n = \<lparr>vdtype = Float64, vdata = replicate n (Fin 1)\<rparr>"

text \<open>The inner product that \<open>@\<close> computes for each output element.\<close>

definition dot :: "npfloat list \<Rightarrow> npfloat list \<Rightarrow> npfloat" where
  "dot xs ys = foldl fadd (Fin 0) (map2 fmul xs ys)"

datatype lib_error = LinAlgError | ArpackNoConvergence | ArpackError | LibValueError

text \<open>
  The exceptions of the model. \<open>ValueError\<close> is numpy's shape mismatch in \<open>@\<close>,
  \<open>TypeError\<close> is Python's for calling a non-callable, \<open>LibraryError\<close> wraps what the
  SVD routines raise. The last three are the error names of the specification; no
  statement of the source constructs them.
\<close>

datatype error =
    ValueError
  | TypeError
  | LibraryError lib_error
  | InvalidHypergraphError
  | DegenerateDegreeError
  | DecompositionConvergenceError

text \<open>\<open>A @ w\<close> for a matrix and a vector: the lengths must agree, there is no broadcasting.\<close>

definition matvec :: "mat \<Rightarrow> vec \<Rightarrow> error + vec" where
  "matvec A w =
     (if ncols A \<noteq> length (vdata w) then Inl ValueError
      else Inr \<lparr>vdtype = promote (mdtype A) (vdtype w),
                vdata = map (\<lambda>r. dot r (vdata w)) (mrows A)\<rparr>)"

text \<open>\<open>u @ A\<close> for a vector and a matrix.\<close>

definition vecmat :: "vec \<Rightarrow> mat \<Rightarrow> error + vec" where
  "vecmat u A =
     (if length (vdata u) \<noteq> nrows A then Inl ValueError
      else Inr \<lparr>vdtype = promote (vdtype u) (mdtype A),
                vdata = map (\<lambda>e. dot (vdata u) (column A e)) [0..<ncols A]\<rparr>)"

section \<open>The hypergraph data object and the normalized incidence\<close>

text \<open>
  The \<open>Data\<close> object: \<open>x\<close> is the incidence matrix, \<open>y\<close> the labels, and
  \<open>hyperedge_weight\<close> is absent (\<open>None\<close>) when the key is not in the object.
\<close>

record data =
  x :: mat
  y :: "int list"
  hyperedge_weight :: "vec option"

text \<open>Elementwise operations: one array, and two arrays of equal length.\<close>

definition vmap :: "(npfloat \<Rightarrow> npfloat) \<Rightarrow> vec \<Rightarrow> vec" where
  "vmap f v = \<lparr>vdtype = vdtype v, vdata = map f (vdata v)\<rparr>"

definition vmap2 :: "(npfloat \<Rightarrow> npfloat \<Rightarrow> npfloat) \<Rightarrow> vec \<Rightarrow> vec \<Rightarrow> vec" where
  "vmap2 f u v = \<lparr>vdtype = promote (vdtype u) (vdtype v), vdata = map2 f (vdata u) (vdata v)\<rparr>"

text \<open>
  The two broadcast products of the return statement: \<open>d * M\<close> with \<open>d\<close> of shape \<open>(n, 1)\<close>
  multiplies row \<open>v\<close> by \<open>d[v]\<close>, and \<open>M * b\<close> with \<open>b\<close> of shape \<open>(m,)\<close> multiplies
  column \<open>e\<close> by \<open>b[e]\<close>. At both calls the lengths agree by construction.
\<close>

definition scale_rows :: "vec \<Rightarrow> mat \<Rightarrow> mat" where
  "scale_rows d M =
     \<lparr>mdtype = promote (vdtype d) (mdtype M), nrows = nrows M, ncols = ncols M,
      mrows = map2 (\<lambda>dv r. map (fmul dv) r) (vdata d) (mrows M)\<rparr>"

definition scale_cols :: "mat \<Rightarrow> vec \<Rightarrow> mat" where
  "scale_cols M b =
     \<lparr>mdtype = promote (mdtype M) (vdtype b), nrows = nrows M, ncols = ncols M,
      mrows = map (\<lambda>r. map2 fmul r (vdata b)) (mrows M)\<rparr>"

text \<open>
  \<^verbatim>\<open>
  def normalized_incidence(data):
      inc = data.x.cpu().numpy()
      if 'hyperedge_weight' in data:
          weights = data.hyperedge_weight.cpu().numpy()
      else:
          weights = np.ones(inc.shape[1], dtype=np.float)
      d = inc @ weights
      d = 1/np.sqrt(d[:,np.newaxis])
      b = np.ones(inc.shape[0]) @ inc
      b = np.sqrt(weights / b)
      return d * inc * b
  \<close>
  \<open>d\<close> becomes a column of shape \<open>(n, 1)\<close>, so \<open>d * inc\<close> scales row \<open>v\<close> by
  \<open>d[v]\<close>, and the product with \<open>b\<close> of shape \<open>(m,)\<close> scales column \<open>e\<close> by \<open>b[e]\<close>.
\<close>

definition weights_of :: "data \<Rightarrow> vec" where
  "weights_of dat =
     (case hyperedge_weight dat of
        Some w \<Rightarrow> w
      | None \<Rightarrow> np_ones (ncols (x dat)))"

definition normalized_incidence :: "data \<Rightarrow> error + mat" where
  "normalized_incidence dat =
     (let inc = x dat;
          weights = weights_of dat
      in (case matvec inc weights of
            Inl err \<Rightarrow> Inl err
          | Inr d0 \<Rightarrow>
              (let d = vmap (\<lambda>t. fdiv (Fin 1) (fsqrt t)) d0
               in (case vecmat (np_ones (nrows inc)) inc of
                     Inl err \<Rightarrow> Inl err
                   | Inr b0 \<Rightarrow>
                       (let b = vmap fsqrt (vmap2 fdiv weights b0)
                        in Inr (scale_cols (scale_rows d inc) b))))))"

section \<open>The Laplacian decomposition\<close>

text \<open>
  The two SVD routines belong to numpy and scipy, not to the repository: they are
  parameters of the model. \<open>svd inc\<close> stands for
  \<open>np.linalg.svd(inc, full_matrices=False)\<close> and \<open>svds inc k tol\<close> for
  \<open>sp.linalg.svds(inc, k, tol=tol)\<close>; each returns the triple \<open>(U, sigma, Vt)\<close> or
  raises. Every call of a routine or of a function of the module is recorded in a log, in
  the order of the calls.
\<close>

type_synonym svd_result = "mat \<times> vec \<times> mat"

type_synonym svd_routine = "mat \<Rightarrow> lib_error + svd_result"

type_synonym svds_routine = "mat \<Rightarrow> int \<Rightarrow> real \<Rightarrow> lib_error + svd_result"

datatype call =
    Normalize_call data
  | Decomposition_call mat "int option" real
  | Svd_call mat bool
  | Svds_call mat int real
  | Setup_call data vec mat real "int option"

text \<open>The Python slice \<open>xs[:k]\<close>; a negative \<open>k\<close> counts from the end.\<close>

definition py_prefix :: "int \<Rightarrow> 'a list \<Rightarrow> 'a list" where
  "py_prefix k xs = (if 0 \<le> k then take (nat k) xs else take (length xs - nat (- k)) xs)"

text \<open>\<open>sigma[:k]\<close> and \<open>U[:, :k]\<close>.\<close>

definition slice_vec :: "vec \<Rightarrow> int \<Rightarrow> vec" where
  "slice_vec v k = \<lparr>vdtype = vdtype v, vdata = py_prefix k (vdata v)\<rparr>"

definition slice_cols :: "mat \<Rightarrow> int \<Rightarrow> mat" where
  "slice_cols M k =
     \<lparr>mdtype = mdtype M, nrows = nrows M,
      ncols = length (py_prefix k [0..<ncols M]),
      mrows = map (py_prefix k) (mrows M)\<rparr>"

text \<open>
  \<open>astype\<close> in exact arithmetic: the element type changes and the values are kept. The
  conversion that rounds to \<open>float32\<close>, and the return statement computed with it, are
  in the section on single precision.
\<close>

definition vastype :: "dtype \<Rightarrow> vec \<Rightarrow> vec" where
  "vastype t v = \<lparr>vdtype = t, vdata = vdata v\<rparr>"

definition mastype :: "dtype \<Rightarrow> mat \<Rightarrow> mat" where
  "mastype t M = \<lparr>mdtype = t, nrows = nrows M, ncols = ncols M, mrows = mrows M\<rparr>"

text \<open>The return statement: \<open>1 - sigma.astype(np.float32)**2, U.astype(np.float32)\<close>.\<close>

definition eigenvalue_of :: "npfloat \<Rightarrow> npfloat" where
  "eigenvalue_of s = fsub (Fin 1) (fmul s s)"

definition spectrum_of :: "mat \<Rightarrow> vec \<Rightarrow> vec \<times> mat" where
  "spectrum_of U sigma = (vmap eigenvalue_of (vastype Float32 sigma), mastype Float32 U)"

text \<open>
  \<^verbatim>\<open>
  def hypergraph_laplacian_decomposition(inc, num_ev=None, tol=0):
      if num_ev is None or num_ev > inc.shape[1]/2:
          U, sigma, _ = np.linalg.svd(inc, full_matrices=False)
          if num_ev is not None:
              U = U[:,:num_ev]
              sigma = sigma[:num_ev]
      else:
          U, sigma, _ = sp.linalg.svds(inc, num_ev, tol=tol)
      return 1 - sigma.astype(np.float32)**2, U.astype(np.float32)
  \<close>
\<close>

definition full_path :: "svd_routine \<Rightarrow> mat \<Rightarrow> int option \<Rightarrow> call list \<times> (error + vec \<times> mat)" where
  "full_path svd inc num_ev =
     ([Svd_call inc False],
      (case svd inc of
         Inl err \<Rightarrow> Inl (LibraryError err)
       | Inr (U, sigma, Vt) \<Rightarrow>
           (case num_ev of
              None \<Rightarrow> Inr (spectrum_of U sigma)
            | Some k \<Rightarrow> Inr (spectrum_of (slice_cols U k) (slice_vec sigma k)))))"

definition truncated_path :: "svds_routine \<Rightarrow> mat \<Rightarrow> int \<Rightarrow> real \<Rightarrow> call list \<times> (error + vec \<times> mat)" where
  "truncated_path svds inc k tol =
     ([Svds_call inc k tol],
      (case svds inc k tol of
         Inl err \<Rightarrow> Inl (LibraryError err)
       | Inr (U, sigma, Vt) \<Rightarrow> Inr (spectrum_of U sigma)))"

definition hypergraph_laplacian_decomposition ::
  "svd_routine \<Rightarrow> svds_routine \<Rightarrow> mat \<Rightarrow> int option \<Rightarrow> real \<Rightarrow> call list \<times> (error + vec \<times> mat)" where
  "hypergraph_laplacian_decomposition svd svds inc num_ev tol =
     (case num_ev of
        None \<Rightarrow> full_path svd inc None
      | Some k \<Rightarrow>
          if real_of_int k > real (ncols inc) / 2 then full_path svd inc (Some k)
          else truncated_path svds inc k tol)"

section \<open>The transform\<close>

record HypergraphPinv =
  rank :: "int option"
  eig_tol :: real
  eig_threshold :: real

text \<open>
  \<^verbatim>\<open>
  def __call__(self, data):
      inc = normalized_incidence(data)
      w, U = hypergraph_laplacian_decomposition(inc,
                 num_ev=None if self.rank is None else self.rank+1, tol=self.eig_tol)
      setup_spectral_data(data, w, U, threshold=self.eig_threshold, max_rank=self.rank)
      return data
  \<close>
  \<open>setup_spectral_data\<close> is imported from the module \<open>data\<close>, which is not among the
  sources: it is a parameter, which returns the data object it has updated.
\<close>

definition requested_num_ev :: "HypergraphPinv \<Rightarrow> int option" where
  "requested_num_ev self = (case rank self of None \<Rightarrow> None | Some k \<Rightarrow> Some (k + 1))"

text \<open>
  A call of the decomposition from the module: the log records the call with the
  arguments that the function receives, and then the calls that the function makes.
\<close>

definition call_decomposition ::
  "svd_routine \<Rightarrow> svds_routine \<Rightarrow> mat \<Rightarrow> int option \<Rightarrow> real \<Rightarrow> call list \<times> (error + vec \<times> mat)" where
  "call_decomposition svd svds inc num_ev tol =
     (let (calls, res) = hypergraph_laplacian_decomposition svd svds inc num_ev tol
      in (Decomposition_call inc num_ev tol # calls, res))"

definition HypergraphPinv_call ::
  "svd_routine \<Rightarrow> svds_routine \<Rightarrow> (data \<Rightarrow> vec \<Rightarrow> mat \<Rightarrow> real \<Rightarrow> int option \<Rightarrow> error + 'd)
     \<Rightarrow> HypergraphPinv \<Rightarrow> data \<Rightarrow> call list \<times> (error + 'd)" where
  "HypergraphPinv_call svd svds setup_spectral_data self dat =
     (case normalized_incidence dat of
        Inl err \<Rightarrow> ([Normalize_call dat], Inl err)
      | Inr inc \<Rightarrow>
          (let (calls, res) = call_decomposition svd svds inc (requested_num_ev self) (eig_tol self);
               made = Normalize_call dat # calls
           in (case res of
                 Inl err \<Rightarrow> (made, Inl err)
               | Inr (w, U) \<Rightarrow>
                   (made @ [Setup_call dat w U (eig_threshold self) (rank self)],
                    setup_spectral_data dat w U (eig_threshold self) (rank self)))))"

section \<open>Saving a processed dataset\<close>

text \<open>
  Of a \<open>UCIHypergraphDataset\<close> the method reads \<open>pre_transform\<close>, which is \<open>None\<close> or
  a callable that returns a data object or raises, and \<open>processed_paths[0]\<close>. The file
  system is a map from paths to saved objects, and \<open>collate\<close> (of the base class
  \<open>InMemoryDataset\<close>) is a parameter.
\<close>

record UCIHypergraphDataset =
  pre_transform :: "(data \<Rightarrow> error + data) option"
  processed_path :: string

text \<open>Calling a value that may be \<open>None\<close>: Python raises \<open>TypeError\<close> for \<open>None(...)\<close>.\<close>

definition py_call :: "('a \<Rightarrow> error + 'b) option \<Rightarrow> 'a \<Rightarrow> error + 'b" where
  "py_call f a = (case f of None \<Rightarrow> Inl TypeError | Some g \<Rightarrow> g a)"

text \<open>
  \<^verbatim>\<open>
  def save_processed(self, incidence, labels):
      data = Data(
          x = torch.FloatTensor(incidence),
          y = torch.LongTensor(labels),
          hyperedge_weight = torch.ones(incidence.shape[1], dtype=torch.float))
      if self.pre_transform is None:
          data = self.pre_transform(data)
      torch.save(self.collate([data]), self.processed_paths[0])
  \<close>
\<close>

definition new_data :: "mat \<Rightarrow> int list \<Rightarrow> data" where
  "new_data incidence labels =
     \<lparr>x = mastype Float32 incidence,
      y = labels,
      hyperedge_weight = Some \<lparr>vdtype = Float32, vdata = replicate (ncols incidence) (Fin 1)\<rparr>\<rparr>"

definition save_processed ::
  "(data list \<Rightarrow> 'c) \<Rightarrow> UCIHypergraphDataset \<Rightarrow> mat \<Rightarrow> int list \<Rightarrow> (string \<rightharpoonup> 'c)
     \<Rightarrow> (error + unit) \<times> (string \<rightharpoonup> 'c)" where
  "save_processed collate self incidence labels disk =
     (let dat = new_data incidence labels;
          transformed = (if pre_transform self = None then py_call (pre_transform self) dat
                         else Inr dat)
      in (case transformed of
            Inl err \<Rightarrow> (Inl err, disk)
          | Inr dat' \<Rightarrow> (Inr (), disk(processed_path self \<mapsto> collate [dat']))))"

section \<open>Normalization: the entries of the result\<close>

text \<open>
  The matrix of the specification, entry by entry: with \<open>H\<close> the incidence and \<open>w\<close> the
  weights (all ones when absent), the entry at \<open>(v, e)\<close> is
  \<open>(1 / sqrt (\<Sum>e'. H[v,e'] * w[e'])) * H[v,e] * sqrt (w[e] / (\<Sum>v'. H[v',e]))\<close>.
  \<open>fsum n f\<close> adds \<open>f 0\<close>, ..., \<open>f (n - 1)\<close> in this order in the arithmetic of the arrays.
\<close>

definition fsum :: "nat \<Rightarrow> (nat \<Rightarrow> npfloat) \<Rightarrow> npfloat" where
  "fsum n f = foldl fadd (Fin 0) (map f [0..<n])"

definition weight_at :: "data \<Rightarrow> nat \<Rightarrow> npfloat" where
  "weight_at dat e = (case hyperedge_weight dat of None \<Rightarrow> Fin 1 | Some w \<Rightarrow> vdata w ! e)"

definition weighted_row_sum :: "data \<Rightarrow> nat \<Rightarrow> npfloat" where
  "weighted_row_sum dat v =
     fsum (ncols (x dat)) (\<lambda>e'. fmul (entry (x dat) v e') (weight_at dat e'))"

definition column_sum :: "data \<Rightarrow> nat \<Rightarrow> npfloat" where
  "column_sum dat e = fsum (nrows (x dat)) (\<lambda>v'. entry (x dat) v' e)"

definition normalized_entry :: "data \<Rightarrow> nat \<Rightarrow> nat \<Rightarrow> npfloat" where
  "normalized_entry dat v e =
     fmul (fmul (fdiv (Fin 1) (fsqrt (weighted_row_sum dat v))) (entry (x dat) v e))
          (fsqrt (fdiv (weight_at dat e) (column_sum dat e)))"

text \<open>The same over the reals, for finite entries: the degrees \<open>D\<close> and \<open>B\<close>.\<close>

definition node_degree :: "data \<Rightarrow> nat \<Rightarrow> real" where
  "node_degree dat v =
     (\<Sum>e<ncols (x dat). real_of (entry (x dat) v e) * real_of (weight_at dat e))"

definition hyperedge_degree :: "data \<Rightarrow> nat \<Rightarrow> real" where
  "hyperedge_degree dat e = (\<Sum>v<nrows (x dat). real_of (entry (x dat) v e))"

definition finite_data :: "data \<Rightarrow> bool" where
  "finite_data dat \<longleftrightarrow>
     (\<forall>v<nrows (x dat). \<forall>e<ncols (x dat). is_fin (entry (x dat) v e)) \<and>
     (\<forall>e<ncols (x dat). is_fin (weight_at dat e))"

text \<open>A hypergraph of two nodes and two hyperedges, without weights.\<close>

definition two_by_two :: data where
  "two_by_two =
     \<lparr>x = \<lparr>mdtype = Float32, nrows = 2, ncols = 2, mrows = [[Fin 1, Fin 0], [Fin 1, Fin 1]]\<rparr>,
      y = [0, 1],
      hyperedge_weight = None\<rparr>"

lemma map2_nth_conv:
  "length xs = n \<Longrightarrow> length ys = n \<Longrightarrow> map2 f xs ys = map (\<lambda>i. f (xs ! i) (ys ! i)) [0..<n]"
  by (rule nth_equalityI) auto

lemma dot_fsum:
  "length xs = n \<Longrightarrow> length ys = n \<Longrightarrow> dot xs ys = fsum n (\<lambda>i. fmul (xs ! i) (ys ! i))"
  by (simp add: dot_def fsum_def map2_nth_conv)

lemma fmul_one_left [simp]: "fmul (Fin 1) a = a"
  by (cases a) (simp_all add: inf_times_def)

lemma weights_of_nth:
  "length (vdata (weights_of dat)) = ncols (x dat) \<Longrightarrow> e < ncols (x dat) \<Longrightarrow>
   vdata (weights_of dat) ! e = weight_at dat e"
  by (simp add: weights_of_def weight_at_def np_ones_def split: option.splits)

lemma fsum_cong: "(\<And>i. i < n \<Longrightarrow> f i = g i) \<Longrightarrow> fsum n f = fsum n g"
proof -
  assume "\<And>i. i < n \<Longrightarrow> f i = g i"
  then have "map f [0..<n] = map g [0..<n]" by simp
  then show ?thesis unfolding fsum_def by (rule arg_cong)
qed

lemma fsum_Suc: "fsum (Suc n) f = fadd (fsum n f) (f n)"
  by (simp add: fsum_def)

lemma is_fin_conv: "is_fin a \<longleftrightarrow> a = Fin (real_of a)"
  by (cases a) simp_all

lemma fsum_Fin: "(\<And>i. i < n \<Longrightarrow> is_fin (f i)) \<Longrightarrow> fsum n f = Fin (\<Sum>i<n. real_of (f i))"
proof (induction n)
  case 0
  show ?case by (simp add: fsum_def)
next
  case (Suc n)
  have "is_fin (f n)" using Suc.prems by simp
  then obtain r where r: "f n = Fin r" by (cases "f n") simp_all
  show ?case using Suc.IH Suc.prems by (simp add: fsum_Suc r)
qed

lemma row_degree:
  assumes "wf_mat (x dat)" "length (vdata (weights_of dat)) = ncols (x dat)" "v < nrows (x dat)"
  shows "dot (mrows (x dat) ! v) (vdata (weights_of dat)) = weighted_row_sum dat v"
proof -
  have len: "length (mrows (x dat) ! v) = ncols (x dat)"
    using assms by (simp add: wf_mat_def)
  have "dot (mrows (x dat) ! v) (vdata (weights_of dat))
      = fsum (ncols (x dat)) (\<lambda>i. fmul (mrows (x dat) ! v ! i) (vdata (weights_of dat) ! i))"
    by (rule dot_fsum [OF len assms(2)])
  also have "\<dots> = weighted_row_sum dat v"
    unfolding weighted_row_sum_def
    by (rule fsum_cong) (simp add: entry_def weights_of_nth [OF assms(2)])
  finally show ?thesis .
qed

lemma col_degree:
  assumes "wf_mat (x dat)" "e < ncols (x dat)"
  shows "dot (vdata (np_ones (nrows (x dat)))) (column (x dat) e) = column_sum dat e"
proof -
  have l1: "length (vdata (np_ones (nrows (x dat)))) = nrows (x dat)"
    by (simp add: np_ones_def)
  have l2: "length (column (x dat) e) = nrows (x dat)"
    using assms by (simp add: column_def wf_mat_def)
  have "dot (vdata (np_ones (nrows (x dat)))) (column (x dat) e)
      = fsum (nrows (x dat)) (\<lambda>i. fmul (vdata (np_ones (nrows (x dat))) ! i) (column (x dat) e ! i))"
    by (rule dot_fsum [OF l1 l2])
  also have "\<dots> = column_sum dat e"
    unfolding column_sum_def
    using assms(1) by (intro fsum_cong) (simp add: np_ones_def column_def entry_def wf_mat_def)
  finally show ?thesis .
qed

text \<open>
  On a well-shaped input the function returns, and the result is the product of the two
  broadcasts; \<open>normalized_matrix\<close> names it.
\<close>

lemma normalized_incidence_returns:
  assumes wf: "wf_mat (x dat)" and len: "length (vdata (weights_of dat)) = ncols (x dat)"
  shows "\<exists>M. normalized_incidence dat = Inr M \<and> nrows M = nrows (x dat) \<and> ncols M = ncols (x dat)
           \<and> wf_mat M \<and> mdtype M = Float64
           \<and> (\<forall>v<nrows (x dat). \<forall>e<ncols (x dat). entry M v e = normalized_entry dat v e)"
proof -
  let ?n = "nrows (x dat)" and ?m = "ncols (x dat)"
  define M where "M = scale_cols (scale_rows (vmap (\<lambda>t. fdiv (Fin 1) (fsqrt t))
        \<lparr>vdtype = promote (mdtype (x dat)) (vdtype (weights_of dat)),
         vdata = map (\<lambda>r. dot r (vdata (weights_of dat))) (mrows (x dat))\<rparr>) (x dat))
      (vmap fsqrt (vmap2 fdiv (weights_of dat)
        \<lparr>vdtype = promote (vdtype (np_ones ?n)) (mdtype (x dat)),
         vdata = map (\<lambda>e. dot (vdata (np_ones ?n)) (column (x dat) e)) [0..<?m]\<rparr>))"
  have res: "normalized_incidence dat = Inr M"
    using len by (simp add: normalized_incidence_def matvec_def vecmat_def M_def np_ones_def Let_def)
  have shape: "nrows M = ?n" "ncols M = ?m"
    by (simp_all add: M_def scale_cols_def scale_rows_def)
  have lenrows: "length (mrows (x dat)) = ?n"
    and lenrow: "\<And>v. v < ?n \<Longrightarrow> length (mrows (x dat) ! v) = ?m"
    using wf by (simp_all add: wf_mat_def)
  have wfM: "wf_mat M"
    using wf len
    by (auto simp: wf_mat_def M_def scale_cols_def scale_rows_def vmap_def vmap2_def set_zip)
  have dt: "mdtype M = Float64"
    by (cases "vdtype (weights_of dat)")
      (simp_all add: M_def scale_cols_def scale_rows_def vmap_def vmap2_def np_ones_def)
  have ent: "entry M v e = normalized_entry dat v e" if v: "v < ?n" and e: "e < ?m" for v e
  proof -
    have "entry M v e =
        fmul (fmul (fdiv (Fin 1) (fsqrt (dot (mrows (x dat) ! v) (vdata (weights_of dat)))))
                   (mrows (x dat) ! v ! e))
             (fsqrt (fdiv (vdata (weights_of dat) ! e) (dot (vdata (np_ones ?n)) (column (x dat) e))))"
      using v e len lenrows lenrow [OF v]
      by (simp add: entry_def M_def scale_cols_def scale_rows_def vmap_def vmap2_def)
    then show ?thesis
      using v e by (simp add: normalized_entry_def row_degree [OF wf len v] col_degree [OF wf e]
          weights_of_nth [OF len e] entry_def)
  qed
  show ?thesis using res shape wfM dt ent by blast
qed

lemma weighted_row_sum_Fin:
  assumes fin: "finite_data dat" and v: "v < nrows (x dat)"
  shows "weighted_row_sum dat v = Fin (node_degree dat v)"
proof -
  have H: "\<And>e'. e' < ncols (x dat) \<Longrightarrow> entry (x dat) v e' = Fin (real_of (entry (x dat) v e'))"
    and W: "\<And>e'. e' < ncols (x dat) \<Longrightarrow> weight_at dat e' = Fin (real_of (weight_at dat e'))"
    using fin v by (simp_all add: finite_data_def is_fin_conv [symmetric])
  have "weighted_row_sum dat v
      = fsum (ncols (x dat)) (\<lambda>e'. Fin (real_of (entry (x dat) v e') * real_of (weight_at dat e')))"
    unfolding weighted_row_sum_def by (rule fsum_cong) (metis H W fmul.simps(1))
  also have "\<dots> = Fin (node_degree dat v)"
    by (simp add: fsum_Fin node_degree_def)
  finally show ?thesis .
qed

lemma column_sum_Fin:
  assumes "finite_data dat" and "e < ncols (x dat)"
  shows "column_sum dat e = Fin (hyperedge_degree dat e)"
  using assms by (simp add: column_sum_def fsum_Fin finite_data_def hyperedge_degree_def)

lemma normalized_entry_real:
  assumes fin: "finite_data dat" and v: "v < nrows (x dat)" and e: "e < ncols (x dat)"
    and dv: "0 < node_degree dat v" and be: "0 < hyperedge_degree dat e"
    and we: "0 \<le> real_of (weight_at dat e)"
  shows "normalized_entry dat v e =
     Fin (1 / sqrt (node_degree dat v) * real_of (entry (x dat) v e)
          * sqrt (real_of (weight_at dat e) / hyperedge_degree dat e))"
proof -
  have H: "\<And>v' e'. v' < nrows (x dat) \<Longrightarrow> e' < ncols (x dat) \<Longrightarrow>
            entry (x dat) v' e' = Fin (real_of (entry (x dat) v' e'))"
    and W: "\<And>e'. e' < ncols (x dat) \<Longrightarrow> weight_at dat e' = Fin (real_of (weight_at dat e'))"
    using fin by (simp_all add: finite_data_def is_fin_conv [symmetric])
  have d: "weighted_row_sum dat v = Fin (node_degree dat v)"
    using fin v by (rule weighted_row_sum_Fin)
  have b: "column_sum dat e = Fin (hyperedge_degree dat e)"
    using fin e by (rule column_sum_Fin)
  have q: "0 \<le> real_of (weight_at dat e) / hyperedge_degree dat e"
    using we be by simp
  obtain h where h: "entry (x dat) v e = Fin h"
    using H [OF v e] by blast
  obtain w where w: "weight_at dat e = Fin w"
    using W [OF e] by blast
  show ?thesis
    unfolding normalized_entry_def d b
    using dv be q by (simp add: h w)
qed

text \<open>
  C1. For a data object whose incidence matrix \<open>H\<close> has shape \<open>(n, m)\<close> and whose weight
  vector \<open>w\<close> has length \<open>m\<close> (all ones when the object has none), \<open>normalized_incidence\<close>
  returns a matrix of the same shape whose entry at \<open>(v, e)\<close> is
  \<open>(1 / sqrt (\<Sum>e'. H[v,e'] * w[e'])) * H[v,e] * sqrt (w[e] / (\<Sum>v'. H[v',e]))\<close>, that is
  the entry of \<open>D^(-1/2) H W^(1/2) B^(-1/2)\<close>: in the arithmetic of the arrays for every
  input, and as this real number when the entries are finite, the two degrees positive
  and the weight not negative.
\<close>

theorem normalized_incidence_entries:
  assumes "wf_mat (x dat)" and "length (vdata (weights_of dat)) = ncols (x dat)"
  shows "\<exists>M. normalized_incidence dat = Inr M \<and> nrows M = nrows (x dat) \<and> ncols M = ncols (x dat) \<and>
           (\<forall>v<nrows (x dat). \<forall>e<ncols (x dat).
              entry M v e = normalized_entry dat v e \<and>
              (finite_data dat \<and> 0 < node_degree dat v \<and> 0 < hyperedge_degree dat e
                 \<and> 0 \<le> real_of (weight_at dat e) \<longrightarrow>
               entry M v e =
                 Fin (1 / sqrt (node_degree dat v) * real_of (entry (x dat) v e)
                      * sqrt (real_of (weight_at dat e) / hyperedge_degree dat e))))"
proof -
  obtain M where M: "normalized_incidence dat = Inr M" "nrows M = nrows (x dat)"
      "ncols M = ncols (x dat)"
      "\<forall>v<nrows (x dat). \<forall>e<ncols (x dat). entry M v e = normalized_entry dat v e"
    using normalized_incidence_returns [OF assms] by blast
  have "entry M v e =
      Fin (1 / sqrt (node_degree dat v) * real_of (entry (x dat) v e)
           * sqrt (real_of (weight_at dat e) / hyperedge_degree dat e))"
    if "v < nrows (x dat)" "e < ncols (x dat)" "finite_data dat" "0 < node_degree dat v"
      "0 < hyperedge_degree dat e" "0 \<le> real_of (weight_at dat e)" for v e
    using that M(4) normalized_entry_real [of dat v e] by simp
  with M show ?thesis by blast
qed

lemma two_by_two_degrees:
  "node_degree two_by_two (Suc 0) = 2" "hyperedge_degree two_by_two 0 = 2"
  "real_of (weight_at two_by_two 0) = 1" "real_of (entry (x two_by_two) (Suc 0) 0) = 1"
  "finite_data two_by_two"
  by (simp_all add: node_degree_def hyperedge_degree_def weight_at_def two_by_two_def entry_def
      finite_data_def lessThan_Suc numeral_2_eq_2 less_Suc_eq)

theorem normalized_incidence_entries_witness:
  "wf_mat (x two_by_two) \<and> length (vdata (weights_of two_by_two)) = ncols (x two_by_two) \<and>
   (\<exists>M. normalized_incidence two_by_two = Inr M \<and> nrows M = 2 \<and> ncols M = 2 \<and>
        entry M 1 0 = Fin (1 / sqrt 2 * 1 * sqrt (1 / 2)))"
proof -
  have wf: "wf_mat (x two_by_two)"
    by (simp add: wf_mat_def two_by_two_def)
  have len: "length (vdata (weights_of two_by_two)) = ncols (x two_by_two)"
    by (simp add: weights_of_def np_ones_def two_by_two_def)
  have shape: "nrows (x two_by_two) = 2" "ncols (x two_by_two) = 2"
    by (simp_all add: two_by_two_def)
  obtain M where M: "normalized_incidence two_by_two = Inr M" "nrows M = 2" "ncols M = 2"
    and ent: "\<forall>v<2. \<forall>e<2.
        entry M v e = normalized_entry two_by_two v e \<and>
        (finite_data two_by_two \<and> 0 < node_degree two_by_two v \<and> 0 < hyperedge_degree two_by_two e
           \<and> 0 \<le> real_of (weight_at two_by_two e) \<longrightarrow>
         entry M v e =
           Fin (1 / sqrt (node_degree two_by_two v) * real_of (entry (x two_by_two) v e)
                * sqrt (real_of (weight_at two_by_two e) / hyperedge_degree two_by_two e)))"
    using normalized_incidence_entries [OF wf len] unfolding shape by blast
  have "entry M 1 0 = Fin (1 / sqrt 2 * 1 * sqrt (1 / 2))"
    using ent [rule_format, of 1 0] by (auto simp add: two_by_two_degrees)
  with wf len M show ?thesis by blast
qed

section \<open>Normalization: zero degrees\<close>

text \<open>
  Two degenerate hypergraphs without weights: in the first, node 0 belongs to no
  hyperedge; in the second, hyperedge 1 has no node.
\<close>

definition isolated_node :: data where
  "isolated_node =
     \<lparr>x = \<lparr>mdtype = Float32, nrows = 2, ncols = 2, mrows = [[Fin 0, Fin 0], [Fin 1, Fin 1]]\<rparr>,
      y = [0, 1],
      hyperedge_weight = None\<rparr>"

definition empty_hyperedge :: data where
  "empty_hyperedge =
     \<lparr>x = \<lparr>mdtype = Float32, nrows = 2, ncols = 2, mrows = [[Fin 1, Fin 0], [Fin 1, Fin 0]]\<rparr>,
      y = [0, 1],
      hyperedge_weight = None\<rparr>"

lemma fmul_not_fin_left: "\<not> is_fin a \<Longrightarrow> \<not> is_fin (fmul a b)"
  by (cases a; cases b) (simp_all add: inf_times_def)

lemma fmul_not_fin_right: "\<not> is_fin b \<Longrightarrow> \<not> is_fin (fmul a b)"
  by (cases a; cases b) (simp_all add: inf_times_def)

lemma fsqrt_not_fin: "\<not> is_fin a \<Longrightarrow> \<not> is_fin (fsqrt a)"
  by (cases a) simp_all

lemma fdiv_zero_not_fin: "\<not> is_fin (fdiv a (Fin 0))"
  by (cases a) (simp_all add: inf_times_def)

lemma normalized_entry_zero_row:
  "weighted_row_sum dat v = Fin 0 \<Longrightarrow> \<not> is_fin (normalized_entry dat v e)"
  by (simp add: normalized_entry_def inf_times_def fmul_not_fin_left)

lemma normalized_entry_zero_column:
  "column_sum dat e = Fin 0 \<Longrightarrow> \<not> is_fin (normalized_entry dat v e)"
  by (simp add: normalized_entry_def fmul_not_fin_right fsqrt_not_fin fdiv_zero_not_fin)

text \<open>
  C2, the claim as stated fails. On the hypergraph whose node 0 has weighted degree zero
  the function raises nothing: it returns a matrix whose row 0 is \<open>nan\<close>; and on the
  hypergraph whose hyperedge 1 is empty it returns a matrix whose column 1 is \<open>nan\<close>.
\<close>

theorem normalized_incidence_zero_degree_returns:
  "weighted_row_sum isolated_node 0 = Fin 0 \<and>
   normalized_incidence isolated_node =
     Inr \<lparr>mdtype = Float64, nrows = 2, ncols = 2,
          mrows = [[NaN, NaN], [Fin (1 / sqrt 2), Fin (1 / sqrt 2)]]\<rparr> \<and>
   normalized_incidence isolated_node \<noteq> Inl DegenerateDegreeError \<and>
   column_sum empty_hyperedge 1 = Fin 0 \<and>
   normalized_incidence empty_hyperedge =
     Inr \<lparr>mdtype = Float64, nrows = 2, ncols = 2,
          mrows = [[Fin (sqrt (1 / 2)), NaN], [Fin (sqrt (1 / 2)), NaN]]\<rparr> \<and>
   normalized_incidence empty_hyperedge \<noteq> Inl DegenerateDegreeError"
  by (simp add: normalized_incidence_def isolated_node_def empty_hyperedge_def weights_of_def
      matvec_def vecmat_def np_ones_def dot_def column_def vmap_def vmap2_def scale_rows_def
      scale_cols_def inf_times_def weighted_row_sum_def column_sum_def fsum_def entry_def
      weight_at_def numeral_2_eq_2 upt_rec)

text \<open>
  C2, amended. The function has no degree check and never raises
  \<open>DegenerateDegreeError\<close>. On every well-shaped input it returns a matrix of the input's
  shape; in it every entry of the row of a node whose weighted degree is zero, and every
  entry of the column of a hyperedge whose degree is zero, is \<open>inf\<close> or \<open>nan\<close>.
\<close>

theorem normalized_incidence_zero_degree:
  assumes "wf_mat (x dat)" and "length (vdata (weights_of dat)) = ncols (x dat)"
  shows "normalized_incidence dat \<noteq> Inl DegenerateDegreeError \<and>
         (\<exists>M. normalized_incidence dat = Inr M \<and> nrows M = nrows (x dat) \<and> ncols M = ncols (x dat) \<and>
           (\<forall>v<nrows (x dat). \<forall>e<ncols (x dat).
              weighted_row_sum dat v = Fin 0 \<or> column_sum dat e = Fin 0 \<longrightarrow>
              \<not> is_fin (entry M v e)))"
proof -
  obtain M where M: "normalized_incidence dat = Inr M" "nrows M = nrows (x dat)"
      "ncols M = ncols (x dat)"
      "\<forall>v<nrows (x dat). \<forall>e<ncols (x dat). entry M v e = normalized_entry dat v e"
    using normalized_incidence_returns [OF assms] by blast
  have "\<not> is_fin (entry M v e)"
    if "v < nrows (x dat)" "e < ncols (x dat)"
      "weighted_row_sum dat v = Fin 0 \<or> column_sum dat e = Fin 0" for v e
    using that M(4) normalized_entry_zero_row [of dat v e] normalized_entry_zero_column [of dat e v]
    by auto
  with M show ?thesis by auto
qed

theorem normalized_incidence_zero_degree_witness:
  "wf_mat (x isolated_node) \<and>
   length (vdata (weights_of isolated_node)) = ncols (x isolated_node) \<and>
   weighted_row_sum isolated_node 0 = Fin 0 \<and>
   normalized_incidence isolated_node \<noteq> Inl DegenerateDegreeError \<and>
   (\<exists>M. normalized_incidence isolated_node = Inr M \<and> \<not> is_fin (entry M 0 1))"
proof -
  have wf: "wf_mat (x isolated_node)"
    by (simp add: wf_mat_def isolated_node_def)
  have len: "length (vdata (weights_of isolated_node)) = ncols (x isolated_node)"
    by (simp add: weights_of_def np_ones_def isolated_node_def)
  have shape: "nrows (x isolated_node) = 2" "ncols (x isolated_node) = 2"
    by (simp_all add: isolated_node_def)
  have zero: "weighted_row_sum isolated_node 0 = Fin 0"
    by (simp add: weighted_row_sum_def fsum_def isolated_node_def entry_def weight_at_def
        numeral_2_eq_2 upt_rec)
  have no_err: "normalized_incidence isolated_node \<noteq> Inl DegenerateDegreeError"
    using normalized_incidence_zero_degree [OF wf len] by blast
  obtain M where M: "normalized_incidence isolated_node = Inr M"
    and ent: "\<forall>v<2. \<forall>e<2.
        weighted_row_sum isolated_node v = Fin 0 \<or> column_sum isolated_node e = Fin 0 \<longrightarrow>
        \<not> is_fin (entry M v e)"
    using normalized_incidence_zero_degree [OF wf len] unfolding shape by blast
  have "\<not> is_fin (entry M 0 1)"
    using ent [rule_format, of 0 1] zero by simp
  with wf len zero no_err M show ?thesis by blast
qed

section \<open>Decomposition: the choice of the routine\<close>

text \<open>
  Truncation to the first \<open>n\<close> singular values and to the first \<open>n\<close> left singular
  vectors (the columns of \<open>U\<close>), as the specification words it.
\<close>

definition first_values :: "nat \<Rightarrow> vec \<Rightarrow> vec" where
  "first_values n sigma = \<lparr>vdtype = vdtype sigma, vdata = take n (vdata sigma)\<rparr>"

definition first_columns :: "nat \<Rightarrow> mat \<Rightarrow> mat" where
  "first_columns n U =
     \<lparr>mdtype = mdtype U, nrows = nrows U, ncols = min n (ncols U), mrows = map (take n) (mrows U)\<rparr>"

text \<open>The result of the routine that the function calls on an input.\<close>

definition routine_result ::
  "svd_routine \<Rightarrow> svds_routine \<Rightarrow> mat \<Rightarrow> int option \<Rightarrow> real \<Rightarrow> lib_error + svd_result" where
  "routine_result svd svds inc num_ev tol =
     (case num_ev of
        None \<Rightarrow> svd inc
      | Some k \<Rightarrow> if int (ncols inc) < 2 * k then svd inc else svds inc k tol)"

text \<open>
  Test doubles for the two routines: a routine known by a table of factorizations, which
  raises \<open>LinAlgError\<close> on any other input.
\<close>

definition svd_of_table :: "(mat \<times> svd_result) list \<Rightarrow> svd_routine" where
  "svd_of_table tbl inc = (case map_of tbl inc of None \<Rightarrow> Inl LinAlgError | Some r \<Rightarrow> Inr r)"

definition svds_of_table :: "((mat \<times> int) \<times> svd_result) list \<Rightarrow> svds_routine" where
  "svds_of_table tbl inc k tol =
     (case map_of tbl (inc, k) of None \<Rightarrow> Inl LinAlgError | Some r \<Rightarrow> Inr r)"

text \<open>
  The diagonal matrix \<open>diag(1, 1/2, 1/4, 1/8)\<close>, its singular value decomposition, and
  the two triplets of largest singular value in ascending order, as an iterative solver
  may return them.
\<close>

definition diag4 :: mat where
  "diag4 =
     \<lparr>mdtype = Float64, nrows = 4, ncols = 4,
      mrows = [[Fin 1, Fin 0, Fin 0, Fin 0],
               [Fin 0, Fin (1/2), Fin 0, Fin 0],
               [Fin 0, Fin 0, Fin (1/4), Fin 0],
               [Fin 0, Fin 0, Fin 0, Fin (1/8)]]\<rparr>"

definition identity4 :: mat where
  "identity4 =
     \<lparr>mdtype = Float64, nrows = 4, ncols = 4,
      mrows = [[Fin 1, Fin 0, Fin 0, Fin 0],
               [Fin 0, Fin 1, Fin 0, Fin 0],
               [Fin 0, Fin 0, Fin 1, Fin 0],
               [Fin 0, Fin 0, Fin 0, Fin 1]]\<rparr>"

definition diag4_svd :: svd_result where
  "diag4_svd =
     (identity4, \<lparr>vdtype = Float64, vdata = [Fin 1, Fin (1/2), Fin (1/4), Fin (1/8)]\<rparr>, identity4)"

definition diag4_top2 :: svd_result where
  "diag4_top2 =
     (\<lparr>mdtype = Float64, nrows = 4, ncols = 2,
       mrows = [[Fin 0, Fin 1], [Fin 1, Fin 0], [Fin 0, Fin 0], [Fin 0, Fin 0]]\<rparr>,
      \<lparr>vdtype = Float64, vdata = [Fin (1/2), Fin 1]\<rparr>,
      \<lparr>mdtype = Float64, nrows = 2, ncols = 4,
       mrows = [[Fin 0, Fin 1, Fin 0, Fin 0], [Fin 1, Fin 0, Fin 0, Fin 0]]\<rparr>)"

definition diag4_routine :: svd_routine where
  "diag4_routine = svd_of_table [(diag4, diag4_svd)]"

definition diag4_solver :: svds_routine where
  "diag4_solver = svds_of_table [((diag4, 2), diag4_top2)]"

lemma py_prefix_nonneg: "0 \<le> k \<Longrightarrow> py_prefix k xs = take (nat k) xs"
  by (simp add: py_prefix_def)

lemma slice_vec_nonneg: "0 \<le> k \<Longrightarrow> slice_vec v k = first_values (nat k) v"
  by (simp add: slice_vec_def first_values_def py_prefix_nonneg)

lemma slice_cols_nonneg: "0 \<le> k \<Longrightarrow> slice_cols M k = first_columns (nat k) M"
proof -
  assume k: "0 \<le> k"
  have "map (py_prefix k) (mrows M) = map (take (nat k)) (mrows M)"
    using k by (simp add: py_prefix_nonneg)
  then show ?thesis
    using k by (simp add: slice_cols_def first_columns_def py_prefix_nonneg min.commute)
qed

lemma full_condition: "real_of_int k > real (n::nat) / 2 \<longleftrightarrow> int n < 2 * k"
proof -
  have "real_of_int k > real n / 2 \<longleftrightarrow> real_of_int (int n) < real_of_int (2 * k)"
    by (simp add: field_simps)
  also have "\<dots> \<longleftrightarrow> int n < 2 * k"
    by (rule of_int_less_iff)
  finally show ?thesis .
qed

lemma decomposition_absent:
  "hypergraph_laplacian_decomposition svd svds inc None tol =
     ([Svd_call inc False],
      (case svd inc of
         Inl err \<Rightarrow> Inl (LibraryError err)
       | Inr (U, sigma, Vt) \<Rightarrow> Inr (spectrum_of U sigma)))"
  by (simp add: hypergraph_laplacian_decomposition_def full_path_def split: sum.split)

lemma decomposition_large:
  assumes "int (ncols inc) < 2 * k"
  shows "hypergraph_laplacian_decomposition svd svds inc (Some k) tol =
     ([Svd_call inc False],
      (case svd inc of
         Inl err \<Rightarrow> Inl (LibraryError err)
       | Inr (U, sigma, Vt) \<Rightarrow>
           Inr (spectrum_of (first_columns (nat k) U) (first_values (nat k) sigma))))"
proof -
  have k: "0 \<le> k" using assms by simp
  show ?thesis
    using assms
    by (simp add: hypergraph_laplacian_decomposition_def full_path_def full_condition
        slice_vec_nonneg [OF k] slice_cols_nonneg [OF k] split: sum.split)
qed

lemma decomposition_small:
  assumes "2 * k \<le> int (ncols inc)"
  shows "hypergraph_laplacian_decomposition svd svds inc (Some k) tol =
     ([Svds_call inc k tol],
      (case svds inc k tol of
         Inl err \<Rightarrow> Inl (LibraryError err)
       | Inr (U, sigma, Vt) \<Rightarrow> Inr (spectrum_of U sigma)))"
  using assms
  by (simp add: hypergraph_laplacian_decomposition_def truncated_path_def full_condition)

text \<open>
  C3. With \<open>m\<close> the number of columns of the matrix: when the count is absent, or is \<open>k\<close>
  with \<open>k > m / 2\<close>, the function makes one call, of the full economy-size SVD
  (\<open>full_matrices=False\<close>), and with a count \<open>k\<close> it keeps the first \<open>k\<close> singular values
  and the first \<open>k\<close> columns of the left singular vectors; when the count is \<open>k\<close> with
  \<open>k \<le> m / 2\<close> it makes one call, of the truncated solver, asking for \<open>k\<close> triplets with
  the given tolerance, and keeps all it returns.
\<close>

theorem decomposition_selects_routine:
  "hypergraph_laplacian_decomposition svd svds inc None tol =
     ([Svd_call inc False],
      (case svd inc of
         Inl err \<Rightarrow> Inl (LibraryError err)
       | Inr (U, sigma, Vt) \<Rightarrow> Inr (spectrum_of U sigma))) \<and>
   (real_of_int k > real (ncols inc) / 2 \<longrightarrow>
    hypergraph_laplacian_decomposition svd svds inc (Some k) tol =
     ([Svd_call inc False],
      (case svd inc of
         Inl err \<Rightarrow> Inl (LibraryError err)
       | Inr (U, sigma, Vt) \<Rightarrow>
           Inr (spectrum_of (first_columns (nat k) U) (first_values (nat k) sigma))))) \<and>
   (real_of_int k \<le> real (ncols inc) / 2 \<longrightarrow>
    hypergraph_laplacian_decomposition svd svds inc (Some k) tol =
     ([Svds_call inc k tol],
      (case svds inc k tol of
         Inl err \<Rightarrow> Inl (LibraryError err)
       | Inr (U, sigma, Vt) \<Rightarrow> Inr (spectrum_of U sigma))))"
proof (intro conjI impI)
  show "hypergraph_laplacian_decomposition svd svds inc None tol =
     ([Svd_call inc False],
      (case svd inc of
         Inl err \<Rightarrow> Inl (LibraryError err)
       | Inr (U, sigma, Vt) \<Rightarrow> Inr (spectrum_of U sigma)))"
    by (rule decomposition_absent)
next
  assume "real_of_int k > real (ncols inc) / 2"
  then have "int (ncols inc) < 2 * k" by (simp add: full_condition)
  then show "hypergraph_laplacian_decomposition svd svds inc (Some k) tol =
     ([Svd_call inc False],
      (case svd inc of
         Inl err \<Rightarrow> Inl (LibraryError err)
       | Inr (U, sigma, Vt) \<Rightarrow>
           Inr (spectrum_of (first_columns (nat k) U) (first_values (nat k) sigma))))"
    by (rule decomposition_large)
next
  assume "real_of_int k \<le> real (ncols inc) / 2"
  then have "\<not> int (ncols inc) < 2 * k" by (simp add: full_condition [symmetric])
  then have "2 * k \<le> int (ncols inc)" by simp
  then show "hypergraph_laplacian_decomposition svd svds inc (Some k) tol =
     ([Svds_call inc k tol],
      (case svds inc k tol of
         Inl err \<Rightarrow> Inl (LibraryError err)
       | Inr (U, sigma, Vt) \<Rightarrow> Inr (spectrum_of U sigma)))"
    by (rule decomposition_small)
qed

lemma diag4_lookups:
  "diag4_routine diag4 = Inr diag4_svd" "diag4_solver diag4 2 tol = Inr diag4_top2"
  by (simp_all add: diag4_routine_def diag4_solver_def svd_of_table_def svds_of_table_def)

theorem decomposition_selects_routine_witness:
  "real_of_int 3 > real (ncols diag4) / 2 \<and>
   hypergraph_laplacian_decomposition diag4_routine diag4_solver diag4 (Some 3) 0 =
     ([Svd_call diag4 False],
      Inr (\<lparr>vdtype = Float32, vdata = [Fin 0, Fin (3/4), Fin (15/16)]\<rparr>,
           \<lparr>mdtype = Float32, nrows = 4, ncols = 3,
            mrows = [[Fin 1, Fin 0, Fin 0], [Fin 0, Fin 1, Fin 0],
                     [Fin 0, Fin 0, Fin 1], [Fin 0, Fin 0, Fin 0]]\<rparr>)) \<and>
   real_of_int 2 \<le> real (ncols diag4) / 2 \<and>
   hypergraph_laplacian_decomposition diag4_routine diag4_solver diag4 (Some 2) 0 =
     ([Svds_call diag4 2 0],
      Inr (\<lparr>vdtype = Float32, vdata = [Fin (3/4), Fin 0]\<rparr>,
           \<lparr>mdtype = Float32, nrows = 4, ncols = 2,
            mrows = [[Fin 0, Fin 1], [Fin 1, Fin 0], [Fin 0, Fin 0], [Fin 0, Fin 0]]\<rparr>))"
proof -
  have m: "ncols diag4 = 4" by (simp add: diag4_def)
  have big: "real_of_int 3 > real (ncols diag4) / 2"
    and small: "real_of_int 2 \<le> real (ncols diag4) / 2"
    by (simp_all add: m)
  have three: "nat 3 = Suc (Suc (Suc 0))" by simp
  have full: "hypergraph_laplacian_decomposition diag4_routine diag4_solver diag4 (Some 3) 0 =
     ([Svd_call diag4 False],
      Inr (spectrum_of (first_columns (nat 3) identity4)
             (first_values (nat 3) \<lparr>vdtype = Float64, vdata = [Fin 1, Fin (1/2), Fin (1/4), Fin (1/8)]\<rparr>)))"
    using decomposition_selects_routine [of diag4_routine diag4_solver diag4 0 3] big
    by (simp add: diag4_lookups diag4_svd_def)
  have trunc: "hypergraph_laplacian_decomposition diag4_routine diag4_solver diag4 (Some 2) 0 =
     ([Svds_call diag4 2 0], Inr (spectrum_of (fst diag4_top2) (fst (snd diag4_top2))))"
    using decomposition_selects_routine [of diag4_routine diag4_solver diag4 0 2] small
    by (simp add: diag4_lookups diag4_top2_def)
  show ?thesis
    unfolding full trunc
    using big small
    by (simp add: three spectrum_of_def first_columns_def first_values_def identity4_def
        diag4_top2_def vmap_def vastype_def mastype_def eigenvalue_of_def fsub_def)
qed

section \<open>Decomposition: the values kept and the shapes\<close>

lemma routine_result_absent: "routine_result svd svds inc None tol = svd inc"
  by (simp add: routine_result_def)

lemma routine_result_large:
  "int (ncols inc) < 2 * k \<Longrightarrow> routine_result svd svds inc (Some k) tol = svd inc"
  by (simp add: routine_result_def)

lemma routine_result_small:
  "2 * k \<le> int (ncols inc) \<Longrightarrow> routine_result svd svds inc (Some k) tol = svds inc k tol"
  by (simp add: routine_result_def)

text \<open>
  The singular values that the function keeps of those the routine returned: all of
  them, or the first \<open>k\<close> on the full path with a count \<open>k\<close>; and the same for the
  columns of \<open>U\<close>.
\<close>

definition kept_values :: "mat \<Rightarrow> int option \<Rightarrow> vec \<Rightarrow> vec" where
  "kept_values inc num_ev sigma =
     (case num_ev of
        None \<Rightarrow> sigma
      | Some k \<Rightarrow> if int (ncols inc) < 2 * k then first_values (nat k) sigma else sigma)"

definition kept_columns :: "mat \<Rightarrow> int option \<Rightarrow> mat \<Rightarrow> mat" where
  "kept_columns inc num_ev U =
     (case num_ev of
        None \<Rightarrow> U
      | Some k \<Rightarrow> if int (ncols inc) < 2 * k then first_columns (nat k) U else U)"

lemma decomposition_result:
  assumes "routine_result svd svds inc num_ev tol = Inr (U, sigma, Vt)"
  shows "snd (hypergraph_laplacian_decomposition svd svds inc num_ev tol) =
           Inr (spectrum_of (kept_columns inc num_ev U) (kept_values inc num_ev sigma))"
proof (cases num_ev)
  case None
  then show ?thesis
    using assms
    by (simp add: decomposition_absent routine_result_absent kept_values_def kept_columns_def)
next
  case (Some k)
  show ?thesis
  proof (cases "int (ncols inc) < 2 * k")
    case True
    then show ?thesis
      using assms Some
      by (simp add: decomposition_large routine_result_large kept_values_def kept_columns_def)
  next
    case False
    then have "2 * k \<le> int (ncols inc)" by simp
    then show ?thesis
      using assms Some False
      by (simp add: decomposition_small routine_result_small kept_values_def kept_columns_def)
  qed
qed

lemma decomposition_error:
  assumes "routine_result svd svds inc num_ev tol = Inl err"
  shows "snd (hypergraph_laplacian_decomposition svd svds inc num_ev tol) = Inl (LibraryError err)"
proof (cases num_ev)
  case None
  then show ?thesis
    using assms by (simp add: decomposition_absent routine_result_absent)
next
  case (Some k)
  show ?thesis
  proof (cases "int (ncols inc) < 2 * k")
    case True
    then show ?thesis
      using assms Some by (simp add: decomposition_large routine_result_large)
  next
    case False
    then have "2 * k \<le> int (ncols inc)" by simp
    then show ?thesis
      using assms Some by (simp add: decomposition_small routine_result_small)
  qed
qed

lemma eigenvalue_of_Fin: "eigenvalue_of (Fin s) = Fin (1 - s\<^sup>2)"
  by (simp add: eigenvalue_of_def fsub_def power2_eq_square)


text \<open>
  C9. Whenever the function returns, the number of returned eigenvalues is the number of
  columns of the returned eigenvector matrix, any count \<open>k\<close> included (also one beyond
  the number of singular values): provided the routine called has returned a matrix \<open>U\<close>
  with one column for each singular value, which is the contract of both library
  routines and is not checked by the function.
\<close>

theorem decomposition_lengths_agree:
  assumes "snd (hypergraph_laplacian_decomposition svd svds inc num_ev tol) = Inr (w, V)"
    and "\<forall>U sigma Vt. routine_result svd svds inc num_ev tol = Inr (U, sigma, Vt) \<longrightarrow>
           wf_mat U \<and> ncols U = length (vdata sigma)"
  shows "length (vdata w) = ncols V \<and> wf_mat V"
proof (cases "routine_result svd svds inc num_ev tol")
  case (Inl err)
  then show ?thesis
    using assms(1) decomposition_error [of svd svds inc num_ev tol err] by simp
next
  case (Inr r)
  obtain U sigma Vt where r: "r = (U, sigma, Vt)"
    by (cases r) auto
  have rr: "routine_result svd svds inc num_ev tol = Inr (U, sigma, Vt)"
    using Inr r by simp
  have U: "wf_mat U" "ncols U = length (vdata sigma)"
    using assms(2) rr by blast+
  have res: "w = vmap eigenvalue_of (vastype Float32 (kept_values inc num_ev sigma))"
      "V = mastype Float32 (kept_columns inc num_ev U)"
    using decomposition_result [OF rr] assms(1) by (simp_all add: spectrum_of_def)
  have len: "length (vdata w) = ncols V"
    using U(2)
    by (simp add: res vmap_def vastype_def mastype_def kept_values_def kept_columns_def
        first_values_def first_columns_def min.commute split: option.split)
  have wf: "wf_mat V"
    using U(1)
    by (auto simp: res mastype_def kept_columns_def first_columns_def wf_mat_def min.commute
        split: option.split)
  show ?thesis using len wf by simp
qed

theorem decomposition_lengths_agree_witness:
  "snd (hypergraph_laplacian_decomposition diag4_routine diag4_solver diag4 (Some 7) 0) =
     Inr (\<lparr>vdtype = Float32, vdata = [Fin 0, Fin (3/4), Fin (15/16), Fin (63/64)]\<rparr>,
          mastype Float32 identity4) \<and>
   wf_mat identity4 \<and> ncols identity4 = length [Fin 1, Fin (1/2), Fin (1/4), Fin (1/8 :: real)] \<and>
   length (vdata \<lparr>vdtype = Float32, vdata = [Fin 0, Fin (3/4), Fin (15/16), Fin (63/64)]\<rparr>) =
     ncols (mastype Float32 identity4) \<and>
   wf_mat (mastype Float32 identity4)"
proof -
  have m: "ncols diag4 = 4" by (simp add: diag4_def)
  have rr: "routine_result diag4_routine diag4_solver diag4 (Some 7) 0 = Inr diag4_svd"
    by (simp add: routine_result_def m diag4_lookups)
  have U: "wf_mat identity4"
      "ncols identity4 = length [Fin 1, Fin (1/2), Fin (1/4), Fin (1/8 :: real)]"
    by (simp_all add: wf_mat_def identity4_def)
  have run: "snd (hypergraph_laplacian_decomposition diag4_routine diag4_solver diag4 (Some 7) 0) =
     Inr (\<lparr>vdtype = Float32, vdata = [Fin 0, Fin (3/4), Fin (15/16), Fin (63/64)]\<rparr>,
          mastype Float32 identity4)"
    using decomposition_result [OF rr [unfolded diag4_svd_def]]
    by (simp add: m kept_values_def kept_columns_def first_values_def first_columns_def
        spectrum_of_def vmap_def vastype_def mastype_def eigenvalue_of_def fsub_def identity4_def)
  have contract: "\<forall>U sigma Vt.
      routine_result diag4_routine diag4_solver diag4 (Some 7) 0 = Inr (U, sigma, Vt) \<longrightarrow>
      wf_mat U \<and> ncols U = length (vdata sigma)"
    using U by (simp add: rr diag4_svd_def)
  show ?thesis
    using decomposition_lengths_agree [OF run contract] run U by simp
qed

section \<open>Decomposition: empty matrices\<close>

text \<open>
  A matrix without rows, and the empty factorization that a routine accepting empty
  matrices returns for it.
\<close>

definition no_nodes :: mat where
  "no_nodes = \<lparr>mdtype = Float64, nrows = 0, ncols = 3, mrows = []\<rparr>"

definition no_nodes_svd :: svd_result where
  "no_nodes_svd =
     (\<lparr>mdtype = Float64, nrows = 0, ncols = 0, mrows = []\<rparr>,
      \<lparr>vdtype = Float64, vdata = []\<rparr>,
      \<lparr>mdtype = Float64, nrows = 0, ncols = 3, mrows = []\<rparr>)"

text \<open>The one library call that the function makes on an input.\<close>

definition routine_call :: "mat \<Rightarrow> int option \<Rightarrow> real \<Rightarrow> call" where
  "routine_call inc num_ev tol =
     (case num_ev of
        None \<Rightarrow> Svd_call inc False
      | Some k \<Rightarrow> if int (ncols inc) < 2 * k then Svd_call inc False else Svds_call inc k tol)"

lemma decomposition_calls:
  "fst (hypergraph_laplacian_decomposition svd svds inc num_ev tol) = [routine_call inc num_ev tol]"
  by (simp add: hypergraph_laplacian_decomposition_def full_path_def truncated_path_def
      routine_call_def full_condition split: option.split)

lemma decomposition_not_invalid:
  "snd (hypergraph_laplacian_decomposition svd svds inc num_ev tol) \<noteq> Inl InvalidHypergraphError"
proof (cases "routine_result svd svds inc num_ev tol")
  case (Inl err)
  then show ?thesis
    using decomposition_error [of svd svds inc num_ev tol err] by simp
next
  case (Inr r)
  obtain U sigma Vt where "r = (U, sigma, Vt)"
    by (cases r) auto
  then show ?thesis
    using Inr decomposition_result [of svd svds inc num_ev tol U sigma Vt] by simp
qed

text \<open>
  C6, the claim as stated fails. On a matrix without rows the function calls the SVD
  routine: with a routine that accepts empty matrices it returns an empty spectrum, and
  with one that rejects them the error is the routine's, not \<open>InvalidHypergraphError\<close>.
\<close>

theorem decomposition_empty_matrix_attempted:
  "nrows no_nodes = 0 \<and>
   hypergraph_laplacian_decomposition (svd_of_table [(no_nodes, no_nodes_svd)]) (svds_of_table [])
       no_nodes None 0 =
     ([Svd_call no_nodes False],
      Inr (\<lparr>vdtype = Float32, vdata = []\<rparr>,
           \<lparr>mdtype = Float32, nrows = 0, ncols = 0, mrows = []\<rparr>)) \<and>
   hypergraph_laplacian_decomposition (svd_of_table []) (svds_of_table []) no_nodes None 0 =
     ([Svd_call no_nodes False], Inl (LibraryError LinAlgError))"
  by (simp add: hypergraph_laplacian_decomposition_def full_path_def svd_of_table_def
      no_nodes_svd_def spectrum_of_def vmap_def vastype_def mastype_def no_nodes_def)

text \<open>
  C6, amended. The function checks no shape and never raises \<open>InvalidHypergraphError\<close>:
  on a matrix with zero rows or zero columns, as on any other, it makes its one call of
  the SVD routine chosen by the count, and returns what the routine returned or raises
  what the routine raised.
\<close>

theorem decomposition_empty_matrix:
  assumes "nrows inc = 0 \<or> ncols inc = 0"
  shows "fst (hypergraph_laplacian_decomposition svd svds inc num_ev tol) =
           [routine_call inc num_ev tol] \<and>
         snd (hypergraph_laplacian_decomposition svd svds inc num_ev tol) =
           (case routine_result svd svds inc num_ev tol of
              Inl err \<Rightarrow> Inl (LibraryError err)
            | Inr (U, sigma, Vt) \<Rightarrow>
                Inr (spectrum_of (kept_columns inc num_ev U) (kept_values inc num_ev sigma))) \<and>
         snd (hypergraph_laplacian_decomposition svd svds inc num_ev tol) \<noteq>
           Inl InvalidHypergraphError"
proof -
  have "snd (hypergraph_laplacian_decomposition svd svds inc num_ev tol) =
           (case routine_result svd svds inc num_ev tol of
              Inl err \<Rightarrow> Inl (LibraryError err)
            | Inr (U, sigma, Vt) \<Rightarrow>
                Inr (spectrum_of (kept_columns inc num_ev U) (kept_values inc num_ev sigma)))"
  proof (cases "routine_result svd svds inc num_ev tol")
    case (Inl err)
    then show ?thesis
      using decomposition_error [of svd svds inc num_ev tol err] by simp
  next
    case (Inr r)
    obtain U sigma Vt where "r = (U, sigma, Vt)"
      by (cases r) auto
    then show ?thesis
      using Inr decomposition_result [of svd svds inc num_ev tol U sigma Vt] by simp
  qed
  then show ?thesis
    using decomposition_calls decomposition_not_invalid by blast
qed

theorem decomposition_empty_matrix_witness:
  "(nrows no_nodes = 0 \<or> ncols no_nodes = 0) \<and>
   fst (hypergraph_laplacian_decomposition (svd_of_table []) (svds_of_table []) no_nodes (Some 1) 0)
     = [Svds_call no_nodes 1 0] \<and>
   snd (hypergraph_laplacian_decomposition (svd_of_table []) (svds_of_table []) no_nodes (Some 1) 0)
     = Inl (LibraryError LinAlgError) \<and>
   snd (hypergraph_laplacian_decomposition (svd_of_table []) (svds_of_table []) no_nodes (Some 1) 0)
     \<noteq> Inl InvalidHypergraphError"
proof -
  have z: "nrows no_nodes = 0 \<or> ncols no_nodes = 0"
    by (simp add: no_nodes_def)
  have m: "ncols no_nodes = 3" by (simp add: no_nodes_def)
  show ?thesis
    using decomposition_empty_matrix [OF z, of "svd_of_table []" "svds_of_table []" "Some 1" 0] z
    by (simp add: routine_call_def routine_result_def m svds_of_table_def)
qed

section \<open>Decomposition: the order of the eigenvalues\<close>

text \<open>
  The contract of the full SVD on the order: the singular values are finite, not
  negative, and in descending order.
\<close>

definition descending_singular_values :: "vec \<Rightarrow> bool" where
  "descending_singular_values sigma \<longleftrightarrow>
     list_all (\<lambda>s. is_fin s \<and> 0 \<le> real_of s) (vdata sigma) \<and>
     sorted_wrt (\<lambda>a b. b \<le> a) (map real_of (vdata sigma))"

definition ascending_eigenvalues :: "vec \<Rightarrow> bool" where
  "ascending_eigenvalues w \<longleftrightarrow>
     list_all is_fin (vdata w) \<and> sorted_wrt (\<lambda>a b. a \<le> b) (map real_of (vdata w))"

lemma kept_values_take:
  "\<exists>n. vdata (kept_values inc num_ev sigma) = take n (vdata sigma)"
proof (cases "vdata (kept_values inc num_ev sigma) = vdata sigma")
  case True
  then have "vdata (kept_values inc num_ev sigma) = take (length (vdata sigma)) (vdata sigma)"
    by simp
  then show ?thesis by blast
next
  case False
  then show ?thesis
    by (auto simp: kept_values_def first_values_def split: option.splits if_splits)
qed

lemma eigenvalues_ascending:
  assumes "list_all (\<lambda>s. is_fin s \<and> 0 \<le> real_of s) xs"
    and "sorted_wrt (\<lambda>a b. b \<le> a) (map real_of xs)"
  shows "list_all is_fin (map eigenvalue_of xs) \<and>
         sorted_wrt (\<lambda>a b. a \<le> b) (map real_of (map eigenvalue_of xs))"
  using assms
proof (induction xs)
  case Nil
  show ?case by simp
next
  case (Cons a xs)
  obtain s where a: "a = Fin s" and s: "0 \<le> s"
    using Cons.prems(1) by (cases a) simp_all
  have IH: "list_all is_fin (map eigenvalue_of xs)"
      "sorted_wrt (\<lambda>a b. a \<le> b) (map real_of (map eigenvalue_of xs))"
    using Cons by simp_all
  have "real_of (eigenvalue_of a) \<le> real_of (eigenvalue_of b)" if b: "b \<in> set xs" for b
  proof -
    obtain t where t: "b = Fin t" and t0: "0 \<le> t"
      using Cons.prems(1) b by (cases b) (auto simp: list_all_iff)
    have "t \<le> s"
      using Cons.prems(2) b a t by auto
    then have "t\<^sup>2 \<le> s\<^sup>2"
      using t0 by (simp add: power_mono)
    then show ?thesis
      by (simp add: a t eigenvalue_of_Fin)
  qed
  then show ?case
    using IH by (simp add: a eigenvalue_of_Fin)
qed

text \<open>
  C8. The function does not sort: on either path the eigenvalue at each position is the
  one of the singular value that the routine returned at this position (of those kept).
  So when the singular values come back in descending order, as from the full SVD, the
  eigenvalues returned are in ascending order, and from the truncated solver the
  eigenvalues come in the order of the solver, whatever it is.
\<close>

theorem decomposition_keeps_order:
  assumes "routine_result svd svds inc num_ev tol = Inr (U, sigma, Vt)"
  shows "\<exists>w V. snd (hypergraph_laplacian_decomposition svd svds inc num_ev tol) = Inr (w, V) \<and>
           vdata w = map eigenvalue_of (vdata (kept_values inc num_ev sigma)) \<and>
           (\<forall>k. num_ev = Some k \<and> 2 * k \<le> int (ncols inc) \<longrightarrow>
                vdata w = map eigenvalue_of (vdata sigma)) \<and>
           (descending_singular_values sigma \<longrightarrow> ascending_eigenvalues w)"
proof -
  let ?kept = "kept_values inc num_ev sigma"
  define w where "w = vmap eigenvalue_of (vastype Float32 ?kept)"
  define V where "V = mastype Float32 (kept_columns inc num_ev U)"
  have res: "snd (hypergraph_laplacian_decomposition svd svds inc num_ev tol) = Inr (w, V)"
    using decomposition_result [OF assms] by (simp add: spectrum_of_def w_def V_def)
  have vals: "vdata w = map eigenvalue_of (vdata ?kept)"
    by (simp add: w_def vmap_def vastype_def)
  have small: "vdata w = map eigenvalue_of (vdata sigma)"
    if "num_ev = Some k" "2 * k \<le> int (ncols inc)" for k
    using that by (simp add: vals kept_values_def)
  have asc: "ascending_eigenvalues w" if d: "descending_singular_values sigma"
  proof -
    obtain n where n: "vdata ?kept = take n (vdata sigma)"
      using kept_values_take by blast
    have fin: "list_all (\<lambda>s. is_fin s \<and> 0 \<le> real_of s) (take n (vdata sigma))"
      using d by (auto simp: descending_singular_values_def list_all_iff dest: in_set_takeD)
    have "sorted_wrt (\<lambda>a b. b \<le> a) (take n (map real_of (vdata sigma)))"
      using d by (simp add: descending_singular_values_def)
    then have srt: "sorted_wrt (\<lambda>a b. b \<le> a) (map real_of (take n (vdata sigma)))"
      by (simp add: take_map)
    show ?thesis
      using eigenvalues_ascending [OF fin srt]
      by (simp add: ascending_eigenvalues_def vals n)
  qed
  show ?thesis
    using res vals small asc by blast
qed

theorem decomposition_keeps_order_witness:
  "routine_result diag4_routine diag4_solver diag4 (Some 3) 0 = Inr diag4_svd \<and>
   descending_singular_values (fst (snd diag4_svd)) \<and>
   (\<exists>w V. snd (hypergraph_laplacian_decomposition diag4_routine diag4_solver diag4 (Some 3) 0)
             = Inr (w, V) \<and>
          vdata w = [Fin 0, Fin (3/4), Fin (15/16)] \<and> ascending_eigenvalues w) \<and>
   routine_result diag4_routine diag4_solver diag4 (Some 2) 0 = Inr diag4_top2 \<and>
   2 * 2 \<le> int (ncols diag4) \<and>
   (\<exists>w V. snd (hypergraph_laplacian_decomposition diag4_routine diag4_solver diag4 (Some 2) 0)
             = Inr (w, V) \<and>
          vdata w = [Fin (3/4), Fin 0] \<and> \<not> ascending_eigenvalues w)"
proof -
  have m: "ncols diag4 = 4" by (simp add: diag4_def)
  have three: "nat 3 = Suc (Suc (Suc 0))" by simp
  have r3: "routine_result diag4_routine diag4_solver diag4 (Some 3) 0 = Inr diag4_svd"
    by (simp add: routine_result_def m diag4_lookups)
  have r3': "routine_result diag4_routine diag4_solver diag4 (Some 3) 0
      = Inr (fst diag4_svd, fst (snd diag4_svd), snd (snd diag4_svd))"
    by (simp add: r3)
  have d: "descending_singular_values (fst (snd diag4_svd))"
    by (simp add: descending_singular_values_def diag4_svd_def)
  have k3: "map eigenvalue_of (vdata (kept_values diag4 (Some 3) (fst (snd diag4_svd))))
      = [Fin 0, Fin (3/4), Fin (15/16)]"
    by (simp add: kept_values_def m first_values_def diag4_svd_def three eigenvalue_of_Fin
        power2_eq_square)
  obtain w3 V3 where
    w3: "snd (hypergraph_laplacian_decomposition diag4_routine diag4_solver diag4 (Some 3) 0)
           = Inr (w3, V3)"
      "vdata w3 = map eigenvalue_of (vdata (kept_values diag4 (Some 3) (fst (snd diag4_svd))))"
      "descending_singular_values (fst (snd diag4_svd)) \<longrightarrow> ascending_eigenvalues w3"
    using decomposition_keeps_order [OF r3'] by blast
  have full: "\<exists>w V. snd (hypergraph_laplacian_decomposition diag4_routine diag4_solver diag4 (Some 3) 0)
             = Inr (w, V) \<and>
          vdata w = [Fin 0, Fin (3/4), Fin (15/16)] \<and> ascending_eigenvalues w"
    using w3 d k3 by auto
  have r2: "routine_result diag4_routine diag4_solver diag4 (Some 2) 0 = Inr diag4_top2"
    by (simp add: routine_result_def m diag4_lookups)
  have r2': "routine_result diag4_routine diag4_solver diag4 (Some 2) 0
      = Inr (fst diag4_top2, fst (snd diag4_top2), snd (snd diag4_top2))"
    by (simp add: r2)
  have le: "2 * 2 \<le> int (ncols diag4)" by (simp add: m)
  obtain w2 V2 where
    w2: "snd (hypergraph_laplacian_decomposition diag4_routine diag4_solver diag4 (Some 2) 0)
           = Inr (w2, V2)"
      "\<forall>k. Some 2 = Some k \<and> 2 * k \<le> int (ncols diag4) \<longrightarrow>
           vdata w2 = map eigenvalue_of (vdata (fst (snd diag4_top2)))"
    using decomposition_keeps_order [OF r2'] by blast
  have v2: "vdata w2 = [Fin (3/4), Fin 0]"
    using w2(2) le by (simp add: diag4_top2_def eigenvalue_of_Fin power2_eq_square)
  have "\<not> ascending_eigenvalues w2"
    by (simp add: ascending_eigenvalues_def v2)
  then have trunc: "\<exists>w V. snd (hypergraph_laplacian_decomposition diag4_routine diag4_solver diag4 (Some 2) 0)
             = Inr (w, V) \<and>
          vdata w = [Fin (3/4), Fin 0] \<and> \<not> ascending_eigenvalues w"
    using w2(1) v2 by blast
  show ?thesis
    using r3 d full r2 le trunc by blast
qed

section \<open>Saving: the pre-transform\<close>

text \<open>
  C10. In \<open>save_processed\<close>, when \<open>pre_transform\<close> is \<open>None\<close> the call raises
  \<open>TypeError\<close> (it calls \<open>None\<close>) and the file system is unchanged; and when
  \<open>pre_transform\<close> is a function \<open>f\<close>, the object saved is the collation of the data
  object as constructed, to which \<open>f\<close> has not been applied.
\<close>

theorem save_processed_pre_transform:
  "save_processed collate (self\<lparr>pre_transform := None\<rparr>) incidence labels disk =
     (Inl TypeError, disk) \<and>
   save_processed collate (self\<lparr>pre_transform := Some f\<rparr>) incidence labels disk =
     (Inr (), disk(processed_path self \<mapsto> collate [new_data incidence labels]))"
  by (simp add: save_processed_def py_call_def)

section \<open>Decomposition: the range of the eigenvalues\<close>

lemma cauchy_step:
  fixes S P Q a b :: real
  assumes "S\<^sup>2 \<le> P * Q" "0 \<le> P" "0 \<le> Q"
  shows "2 * S * a * b \<le> P * b\<^sup>2 + Q * a\<^sup>2"
proof -
  have nonneg: "0 \<le> P * b\<^sup>2 + Q * a\<^sup>2"
    using assms(2,3) by simp
  have "(2 * S * a * b)\<^sup>2 = 4 * S\<^sup>2 * (a\<^sup>2 * b\<^sup>2)"
    by (simp add: power2_eq_square)
  also have "\<dots> \<le> 4 * (P * Q) * (a\<^sup>2 * b\<^sup>2)"
    using assms(1) by (intro mult_right_mono mult_left_mono) simp_all
  also have "\<dots> = 4 * (P * b\<^sup>2) * (Q * a\<^sup>2)"
    by simp
  also have "\<dots> \<le> (P * b\<^sup>2 + Q * a\<^sup>2)\<^sup>2"
  proof -
    have "0 \<le> (P * b\<^sup>2 - Q * a\<^sup>2)\<^sup>2" by simp
    then show ?thesis by (simp add: power2_eq_square algebra_simps)
  qed
  finally show ?thesis
    using nonneg by (rule power2_le_imp_le)
qed

lemma weighted_cauchy_schwarz:
  fixes p s t :: "nat \<Rightarrow> real"
  assumes "\<And>i. i < n \<Longrightarrow> 0 \<le> p i"
  shows "(\<Sum>i<n. p i * s i * t i)\<^sup>2 \<le> (\<Sum>i<n. p i * (s i)\<^sup>2) * (\<Sum>i<n. p i * (t i)\<^sup>2)"
  using assms
proof (induction n)
  case 0
  show ?case by simp
next
  case (Suc n)
  let ?S = "\<Sum>i<n. p i * s i * t i" and ?P = "\<Sum>i<n. p i * (s i)\<^sup>2"
    and ?Q = "\<Sum>i<n. p i * (t i)\<^sup>2"
  have IH: "?S\<^sup>2 \<le> ?P * ?Q"
    using Suc by simp
  have P: "0 \<le> ?P" and Q: "0 \<le> ?Q"
    using Suc.prems by (auto intro!: sum_nonneg mult_nonneg_nonneg)
  have pn: "0 \<le> p n"
    using Suc.prems by simp
  have "2 * ?S * s n * t n \<le> ?P * (t n)\<^sup>2 + ?Q * (s n)\<^sup>2"
    using IH P Q by (rule cauchy_step)
  then have "p n * (2 * ?S * s n * t n) \<le> p n * (?P * (t n)\<^sup>2 + ?Q * (s n)\<^sup>2)"
    using pn by (rule mult_left_mono)
  then have "(?S + p n * s n * t n)\<^sup>2 \<le> (?P + p n * (s n)\<^sup>2) * (?Q + p n * (t n)\<^sup>2)"
    using IH by (simp add: power2_eq_square algebra_simps)
  then show ?case by simp
qed
text \<open>
  The normalized incidence of a hypergraph with non-negative entries and weights and
  positive degrees does not increase the Euclidean norm: \<open>|A z|\<^sup>2 \<le> |z|\<^sup>2\<close>.
\<close>

lemma normalized_row_bound:
  fixes h w b z :: "nat \<Rightarrow> real"
  assumes h: "\<And>e. e < m \<Longrightarrow> 0 \<le> h e"
    and w: "\<And>e. e < m \<Longrightarrow> 0 \<le> w e"
    and d: "0 < (\<Sum>e<m. h e * w e)"
    and b: "\<And>e. e < m \<Longrightarrow> 0 < b e"
  shows "(\<Sum>e<m. (1 / sqrt (\<Sum>e'<m. h e' * w e') * h e * sqrt (w e / b e)) * z e)\<^sup>2
       \<le> (\<Sum>e<m. h e * (z e)\<^sup>2 / b e)"
proof -
  let ?d = "\<Sum>e<m. h e * w e"
  let ?s = "\<lambda>e. sqrt (w e)" and ?t = "\<lambda>e. z e / sqrt (b e)"
  have tm: "(1 / sqrt ?d * h e * sqrt (w e / b e)) * z e = 1 / sqrt ?d * (h e * ?s e * ?t e)" for e
    by (simp add: real_sqrt_divide)
  have eq: "(\<Sum>e<m. (1 / sqrt ?d * h e * sqrt (w e / b e)) * z e) = 1 / sqrt ?d * (\<Sum>e<m. h e * ?s e * ?t e)"
    unfolding tm by (rule sum_distrib_left [symmetric])
  have "(\<Sum>e<m. (1 / sqrt ?d * h e * sqrt (w e / b e)) * z e)\<^sup>2
      = (1 / sqrt ?d)\<^sup>2 * (\<Sum>e<m. h e * ?s e * ?t e)\<^sup>2"
    unfolding eq by (rule power_mult_distrib)
  also have "(1 / sqrt ?d)\<^sup>2 = 1 / ?d"
    using d by (simp add: power_divide)
  also have "1 / ?d * (\<Sum>e<m. h e * ?s e * ?t e)\<^sup>2
      \<le> 1 / ?d * ((\<Sum>e<m. h e * (?s e)\<^sup>2) * (\<Sum>e<m. h e * (?t e)\<^sup>2))"
    using d weighted_cauchy_schwarz [of m h ?s ?t] h
    by (intro mult_left_mono) simp_all
  also have "(\<Sum>e<m. h e * (?s e)\<^sup>2) = ?d"
    using w by (intro sum.cong) simp_all
  also have "(\<Sum>e<m. h e * (?t e)\<^sup>2) = (\<Sum>e<m. h e * (z e)\<^sup>2 / b e)"
    using b by (intro sum.cong) (simp_all add: power_divide less_imp_le)
  also have "1 / ?d * (?d * (\<Sum>e<m. h e * (z e)\<^sup>2 / b e)) = (\<Sum>e<m. h e * (z e)\<^sup>2 / b e)"
    using d by simp
  finally show ?thesis .
qed

lemma normalized_contraction:
  fixes H :: "nat \<Rightarrow> nat \<Rightarrow> real" and w z :: "nat \<Rightarrow> real"
  assumes H: "\<And>v e. v < n \<Longrightarrow> e < m \<Longrightarrow> 0 \<le> H v e"
    and w: "\<And>e. e < m \<Longrightarrow> 0 \<le> w e"
    and d: "\<And>v. v < n \<Longrightarrow> 0 < (\<Sum>e<m. H v e * w e)"
    and b: "\<And>e. e < m \<Longrightarrow> 0 < (\<Sum>v<n. H v e)"
  shows "(\<Sum>v<n. (\<Sum>e<m. (1 / sqrt (\<Sum>e'<m. H v e' * w e') * H v e
                              * sqrt (w e / (\<Sum>v'<n. H v' e))) * z e)\<^sup>2)
       \<le> (\<Sum>e<m. (z e)\<^sup>2)"
proof -
  let ?b = "\<lambda>e. \<Sum>v<n. H v e"
  have "(\<Sum>v<n. (\<Sum>e<m. (1 / sqrt (\<Sum>e'<m. H v e' * w e') * H v e * sqrt (w e / ?b e)) * z e)\<^sup>2)
      \<le> (\<Sum>v<n. \<Sum>e<m. H v e * (z e)\<^sup>2 / ?b e)"
  proof (rule sum_mono)
    fix v assume "v \<in> {..<n}"
    then have v: "v < n" by simp
    show "(\<Sum>e<m. (1 / sqrt (\<Sum>e'<m. H v e' * w e') * H v e * sqrt (w e / ?b e)) * z e)\<^sup>2
        \<le> (\<Sum>e<m. H v e * (z e)\<^sup>2 / ?b e)"
      using H [OF v] w d [OF v] b by (rule normalized_row_bound)
  qed
  also have "\<dots> = (\<Sum>e<m. \<Sum>v<n. H v e * (z e)\<^sup>2 / ?b e)"
    by (rule sum.swap)
  also have "\<dots> = (\<Sum>e<m. (z e)\<^sup>2)"
  proof (rule sum.cong)
    fix e assume "e \<in> {..<m}"
    then have e: "e < m" by simp
    have "(\<Sum>v<n. H v e * (z e)\<^sup>2 / ?b e) = (\<Sum>v<n. H v e) * ((z e)\<^sup>2 / ?b e)"
      by (simp add: sum_distrib_right sum_divide_distrib)
    also have "\<dots> = (z e)\<^sup>2"
      using b [OF e] by simp
    finally show "(\<Sum>v<n. H v e * (z e)\<^sup>2 / ?b e) = (z e)\<^sup>2" .
  qed simp
  finally show ?thesis .
qed
text \<open>
  The hypotheses on the input: entries and weights that are finite and not negative, and
  positive degrees. And the contract of the two routines that the bound rests on: each
  returned \<open>sigma[i]\<close> is a finite non-negative number that forms a singular triplet of
  the matrix \<open>A\<close> with column \<open>i\<close> of \<open>U\<close> and row \<open>i\<close> of \<open>Vt\<close>, both unit vectors:
  \<open>A Vt[i] = sigma[i] U[:,i]\<close>.
\<close>

definition nonnegative_hypergraph :: "data \<Rightarrow> bool" where
  "nonnegative_hypergraph dat \<longleftrightarrow>
     finite_data dat \<and>
     (\<forall>v<nrows (x dat). \<forall>e<ncols (x dat). 0 \<le> real_of (entry (x dat) v e)) \<and>
     (\<forall>e<ncols (x dat). 0 \<le> real_of (weight_at dat e))"

definition positive_degrees :: "data \<Rightarrow> bool" where
  "positive_degrees dat \<longleftrightarrow>
     (\<forall>v<nrows (x dat). 0 < node_degree dat v) \<and>
     (\<forall>e<ncols (x dat). 0 < hyperedge_degree dat e)"

definition singular_triplets :: "mat \<Rightarrow> mat \<Rightarrow> vec \<Rightarrow> mat \<Rightarrow> bool" where
  "singular_triplets A U sigma Vt \<longleftrightarrow>
     (\<forall>i<length (vdata sigma).
        is_fin (vdata sigma ! i) \<and> 0 \<le> real_of (vdata sigma ! i) \<and>
        (\<forall>v<nrows A. is_fin (entry U v i)) \<and>
        (\<forall>e<ncols A. is_fin (entry Vt i e)) \<and>
        (\<forall>v<nrows A.
           (\<Sum>e<ncols A. real_of (entry A v e) * real_of (entry Vt i e))
             = real_of (vdata sigma ! i) * real_of (entry U v i)) \<and>
        (\<Sum>v<nrows A. (real_of (entry U v i))\<^sup>2) = 1 \<and>
        (\<Sum>e<ncols A. (real_of (entry Vt i e))\<^sup>2) = 1)"

lemma singular_value_le_one:
  assumes wf: "wf_mat (x dat)" and len: "length (vdata (weights_of dat)) = ncols (x dat)"
    and nonneg: "nonnegative_hypergraph dat" and pos: "positive_degrees dat"
    and inc: "normalized_incidence dat = Inr inc"
    and tr: "singular_triplets inc U sigma Vt"
    and i: "i < length (vdata sigma)"
  shows "\<exists>s. vdata sigma ! i = Fin s \<and> 0 \<le> s \<and> s\<^sup>2 \<le> 1"
proof -
  let ?n = "nrows (x dat)" and ?m = "ncols (x dat)"
  let ?H = "\<lambda>v e. real_of (entry (x dat) v e)" and ?w = "\<lambda>e. real_of (weight_at dat e)"
  let ?A = "\<lambda>v e. 1 / sqrt (\<Sum>e'<?m. ?H v e' * ?w e') * ?H v e * sqrt (?w e / (\<Sum>v'<?n. ?H v' e))"
  have fin: "finite_data dat"
    and H0: "\<And>v e. v < ?n \<Longrightarrow> e < ?m \<Longrightarrow> 0 \<le> ?H v e"
    and w0: "\<And>e. e < ?m \<Longrightarrow> 0 \<le> ?w e"
    using nonneg by (simp_all add: nonnegative_hypergraph_def)
  have d0: "\<And>v. v < ?n \<Longrightarrow> 0 < (\<Sum>e<?m. ?H v e * ?w e)"
    and b0: "\<And>e. e < ?m \<Longrightarrow> 0 < (\<Sum>v<?n. ?H v e)"
    using pos by (simp_all add: positive_degrees_def node_degree_def hyperedge_degree_def)
  have shape: "nrows inc = ?n" "ncols inc = ?m"
    and ent: "\<And>v e. v < ?n \<Longrightarrow> e < ?m \<Longrightarrow> entry inc v e = normalized_entry dat v e"
    using normalized_incidence_returns [OF wf len] inc by auto
  have A: "real_of (entry inc v e) = ?A v e" if "v < ?n" "e < ?m" for v e
    using that ent normalized_entry_real [OF fin that] d0 b0 w0
    by (simp add: node_degree_def hyperedge_degree_def)
  let ?z = "\<lambda>e. real_of (entry Vt i e)" and ?u = "\<lambda>v. real_of (entry U v i)"
  obtain s where s: "vdata sigma ! i = Fin s" and s0: "0 \<le> s"
    using tr i by (cases "vdata sigma ! i") (auto simp: singular_triplets_def)
  have av: "(\<Sum>e<?m. real_of (entry inc v e) * ?z e) = s * ?u v" if "v < ?n" for v
    using tr i that s by (simp add: singular_triplets_def shape)
  have u1: "(\<Sum>v<?n. (?u v)\<^sup>2) = 1" and z1: "(\<Sum>e<?m. (?z e)\<^sup>2) = 1"
    using tr i by (simp_all add: singular_triplets_def shape)
  have "s\<^sup>2 = (\<Sum>v<?n. (s * ?u v)\<^sup>2)"
    using u1 by (simp add: power_mult_distrib sum_distrib_left [symmetric])
  also have "\<dots> = (\<Sum>v<?n. (\<Sum>e<?m. ?A v e * ?z e)\<^sup>2)"
  proof (rule sum.cong)
    fix v assume "v \<in> {..<?n}"
    then have v: "v < ?n" by simp
    have "(\<Sum>e<?m. ?A v e * ?z e) = (\<Sum>e<?m. real_of (entry inc v e) * ?z e)"
      using A [OF v] by (intro sum.cong) simp_all
    then show "(s * ?u v)\<^sup>2 = (\<Sum>e<?m. ?A v e * ?z e)\<^sup>2"
      using av [OF v] by simp
  qed simp
  also have "\<dots> \<le> (\<Sum>e<?m. (?z e)\<^sup>2)"
    using H0 w0 d0 b0 by (rule normalized_contraction)
  finally have "s\<^sup>2 \<le> 1"
    using z1 by simp
  with s s0 show ?thesis by blast
qed

lemma eigenvalue_of_bounds:
  assumes "0 \<le> s" "s\<^sup>2 \<le> 1"
  shows "is_fin (eigenvalue_of (Fin s)) \<and> 0 \<le> real_of (eigenvalue_of (Fin s))
         \<and> real_of (eigenvalue_of (Fin s)) \<le> 1"
  using assms by (simp add: eigenvalue_of_Fin)

text \<open>
  C7, amended. For a hypergraph whose incidence entries and weights are finite and not
  negative and whose node and hyperedge degrees are all positive, whenever the routine
  called returns singular triplets of the normalized incidence, every eigenvalue that the
  function returns is a finite number in the closed interval \<open>[0, 1]\<close> (in exact
  arithmetic).
\<close>

theorem eigenvalues_in_unit_interval:
  assumes "wf_mat (x dat)" and "length (vdata (weights_of dat)) = ncols (x dat)"
    and "nonnegative_hypergraph dat" and "positive_degrees dat"
    and "normalized_incidence dat = Inr inc"
    and "routine_result svd svds inc num_ev tol = Inr (U, sigma, Vt)"
    and "singular_triplets inc U sigma Vt"
  shows "\<exists>w V. snd (hypergraph_laplacian_decomposition svd svds inc num_ev tol) = Inr (w, V) \<and>
           list_all (\<lambda>l. is_fin l \<and> 0 \<le> real_of l \<and> real_of l \<le> 1) (vdata w)"
proof -
  let ?kept = "kept_values inc num_ev sigma"
  define w where "w = vmap eigenvalue_of (vastype Float32 ?kept)"
  define V where "V = mastype Float32 (kept_columns inc num_ev U)"
  have res: "snd (hypergraph_laplacian_decomposition svd svds inc num_ev tol) = Inr (w, V)"
    using decomposition_result [OF assms(6)] by (simp add: spectrum_of_def w_def V_def)
  have vals: "vdata w = map eigenvalue_of (vdata ?kept)"
    by (simp add: w_def vmap_def vastype_def)
  obtain n where n: "vdata ?kept = take n (vdata sigma)"
    using kept_values_take by blast
  have "is_fin (eigenvalue_of a) \<and> 0 \<le> real_of (eigenvalue_of a) \<and> real_of (eigenvalue_of a) \<le> 1"
    if "a \<in> set (take n (vdata sigma))" for a
  proof -
    have "a \<in> set (vdata sigma)"
      using that by (rule in_set_takeD)
    then obtain i where i: "i < length (vdata sigma)" and a: "a = vdata sigma ! i"
      by (auto simp: in_set_conv_nth)
    obtain s where "vdata sigma ! i = Fin s" "0 \<le> s" "s\<^sup>2 \<le> 1"
      using singular_value_le_one [OF assms(1-5) assms(7) i] by blast
    then show ?thesis
      using eigenvalue_of_bounds [of s] a by simp
  qed
  then have "list_all (\<lambda>l. is_fin l \<and> 0 \<le> real_of l \<and> real_of l \<le> 1) (vdata w)"
    by (simp add: vals n list_all_iff)
  with res show ?thesis by blast
qed
text \<open>
  A matrix with entries of both signs whose degrees are all 1, so that it is its own
  normalized incidence, and its singular value decomposition: the singular values are 3
  and 1.
\<close>

definition mixed_sign :: data where
  "mixed_sign =
     \<lparr>x = \<lparr>mdtype = Float32, nrows = 2, ncols = 2, mrows = [[Fin 2, Fin (- 1)], [Fin (- 1), Fin 2]]\<rparr>,
      y = [0, 1],
      hyperedge_weight = None\<rparr>"

definition mixed_sign_normalized :: mat where
  "mixed_sign_normalized =
     \<lparr>mdtype = Float64, nrows = 2, ncols = 2, mrows = [[Fin 2, Fin (- 1)], [Fin (- 1), Fin 2]]\<rparr>"

definition mixed_sign_U :: mat where
  "mixed_sign_U =
     \<lparr>mdtype = Float64, nrows = 2, ncols = 2,
      mrows = [[Fin (sqrt 2 / 2), Fin (sqrt 2 / 2)], [Fin (- (sqrt 2 / 2)), Fin (sqrt 2 / 2)]]\<rparr>"

definition mixed_sign_sigma :: vec where
  "mixed_sign_sigma = \<lparr>vdtype = Float64, vdata = [Fin 3, Fin 1]\<rparr>"

definition mixed_sign_Vt :: mat where
  "mixed_sign_Vt =
     \<lparr>mdtype = Float64, nrows = 2, ncols = 2,
      mrows = [[Fin (sqrt 2 / 2), Fin (- (sqrt 2 / 2))], [Fin (sqrt 2 / 2), Fin (sqrt 2 / 2)]]\<rparr>"

definition mixed_sign_routine :: svd_routine where
  "mixed_sign_routine =
     svd_of_table [(mixed_sign_normalized, (mixed_sign_U, mixed_sign_sigma, mixed_sign_Vt))]"

text \<open>
  Two nodes that both belong to both hyperedges: the normalized incidence has all entries
  \<open>1/2\<close>, and singular values 1 and 0.
\<close>

definition complete_pair :: data where
  "complete_pair =
     \<lparr>x = \<lparr>mdtype = Float32, nrows = 2, ncols = 2, mrows = [[Fin 1, Fin 1], [Fin 1, Fin 1]]\<rparr>,
      y = [0, 1],
      hyperedge_weight = None\<rparr>"

definition complete_pair_normalized :: mat where
  "complete_pair_normalized =
     \<lparr>mdtype = Float64, nrows = 2, ncols = 2,
      mrows = [[Fin (1/2), Fin (1/2)], [Fin (1/2), Fin (1/2)]]\<rparr>"

definition complete_pair_U :: mat where
  "complete_pair_U =
     \<lparr>mdtype = Float64, nrows = 2, ncols = 2,
      mrows = [[Fin (sqrt 2 / 2), Fin (sqrt 2 / 2)], [Fin (sqrt 2 / 2), Fin (- (sqrt 2 / 2))]]\<rparr>"

definition complete_pair_sigma :: vec where
  "complete_pair_sigma = \<lparr>vdtype = Float64, vdata = [Fin 1, Fin 0]\<rparr>"

definition complete_pair_routine :: svd_routine where
  "complete_pair_routine =
     svd_of_table [(complete_pair_normalized, (complete_pair_U, complete_pair_sigma, complete_pair_U))]"

lemma half_sqrt2_square: "(sqrt 2 / 2)\<^sup>2 = 1 / 2"
  by (simp add: power_divide)

lemma sum_below_two: "(\<Sum>i<2. f i) = f 0 + (f (Suc 0) :: real)"
  by (simp add: numeral_2_eq_2)

lemma all_below_two:
  "(\<forall>i<2. P i) \<longleftrightarrow> P 0 \<and> P (Suc 0)"
  "(\<forall>i<Suc (Suc 0). P i) \<longleftrightarrow> P 0 \<and> P (Suc 0)"
  by (auto simp: numeral_2_eq_2 less_Suc_eq)

lemma mixed_sign_normalizes: "normalized_incidence mixed_sign = Inr mixed_sign_normalized"
  by (simp add: normalized_incidence_def mixed_sign_def mixed_sign_normalized_def weights_of_def
      matvec_def vecmat_def np_ones_def dot_def column_def vmap_def vmap2_def scale_rows_def
      scale_cols_def numeral_2_eq_2 upt_rec)

lemma mixed_sign_triplets:
  "singular_triplets mixed_sign_normalized mixed_sign_U mixed_sign_sigma mixed_sign_Vt"
  by (simp add: singular_triplets_def mixed_sign_normalized_def mixed_sign_U_def
      mixed_sign_sigma_def mixed_sign_Vt_def entry_def sum_below_two all_below_two
      half_sqrt2_square)

lemma mixed_sign_degrees: "finite_data mixed_sign \<and> positive_degrees mixed_sign"
  by (simp add: finite_data_def positive_degrees_def node_degree_def hyperedge_degree_def
      mixed_sign_def entry_def weight_at_def sum_below_two all_below_two)

text \<open>
  C7, the claim as stated fails. All node and hyperedge degrees of the hypergraph are
  positive, the routine returns the singular triplets of its normalized incidence, and the
  function returns the eigenvalue \<open>1 - 3\<^sup>2 = -8\<close>.
\<close>

theorem eigenvalue_below_zero:
  "wf_mat (x mixed_sign) \<and> finite_data mixed_sign \<and> positive_degrees mixed_sign \<and>
   normalized_incidence mixed_sign = Inr mixed_sign_normalized \<and>
   mixed_sign_routine mixed_sign_normalized = Inr (mixed_sign_U, mixed_sign_sigma, mixed_sign_Vt) \<and>
   singular_triplets mixed_sign_normalized mixed_sign_U mixed_sign_sigma mixed_sign_Vt \<and>
   hypergraph_laplacian_decomposition mixed_sign_routine (svds_of_table []) mixed_sign_normalized None 0 =
     ([Svd_call mixed_sign_normalized False],
      Inr (\<lparr>vdtype = Float32, vdata = [Fin (- 8), Fin 0]\<rparr>, mastype Float32 mixed_sign_U))"
proof -
  have wf: "wf_mat (x mixed_sign)"
    by (simp add: wf_mat_def mixed_sign_def)
  have look: "mixed_sign_routine mixed_sign_normalized
      = Inr (mixed_sign_U, mixed_sign_sigma, mixed_sign_Vt)"
    by (simp add: mixed_sign_routine_def svd_of_table_def)
  have run: "hypergraph_laplacian_decomposition mixed_sign_routine (svds_of_table [])
        mixed_sign_normalized None 0 =
     ([Svd_call mixed_sign_normalized False],
      Inr (\<lparr>vdtype = Float32, vdata = [Fin (- 8), Fin 0]\<rparr>, mastype Float32 mixed_sign_U))"
    by (simp add: decomposition_absent look spectrum_of_def vmap_def vastype_def
        mixed_sign_sigma_def eigenvalue_of_Fin)
  show ?thesis
    using wf mixed_sign_degrees mixed_sign_normalizes look mixed_sign_triplets run by simp
qed

lemma complete_pair_normalizes: "normalized_incidence complete_pair = Inr complete_pair_normalized"
  by (simp add: normalized_incidence_def complete_pair_def complete_pair_normalized_def
      weights_of_def matvec_def vecmat_def np_ones_def dot_def column_def vmap_def vmap2_def
      scale_rows_def scale_cols_def numeral_2_eq_2 upt_rec real_sqrt_divide)

lemma complete_pair_triplets:
  "singular_triplets complete_pair_normalized complete_pair_U complete_pair_sigma complete_pair_U"
  by (simp add: singular_triplets_def complete_pair_normalized_def complete_pair_U_def
      complete_pair_sigma_def entry_def sum_below_two all_below_two half_sqrt2_square)

lemma complete_pair_valid:
  "wf_mat (x complete_pair) \<and> length (vdata (weights_of complete_pair)) = ncols (x complete_pair) \<and>
   nonnegative_hypergraph complete_pair \<and> positive_degrees complete_pair"
  by (simp add: wf_mat_def weights_of_def np_ones_def nonnegative_hypergraph_def finite_data_def
      positive_degrees_def node_degree_def hyperedge_degree_def complete_pair_def entry_def
      weight_at_def sum_below_two all_below_two)

theorem eigenvalues_in_unit_interval_witness:
  "wf_mat (x complete_pair) \<and> length (vdata (weights_of complete_pair)) = ncols (x complete_pair) \<and>
   nonnegative_hypergraph complete_pair \<and> positive_degrees complete_pair \<and>
   normalized_incidence complete_pair = Inr complete_pair_normalized \<and>
   routine_result complete_pair_routine (svds_of_table []) complete_pair_normalized None 0
     = Inr (complete_pair_U, complete_pair_sigma, complete_pair_U) \<and>
   singular_triplets complete_pair_normalized complete_pair_U complete_pair_sigma complete_pair_U \<and>
   snd (hypergraph_laplacian_decomposition complete_pair_routine (svds_of_table [])
          complete_pair_normalized None 0)
     = Inr (\<lparr>vdtype = Float32, vdata = [Fin 0, Fin 1]\<rparr>, mastype Float32 complete_pair_U) \<and>
   (\<exists>w V. snd (hypergraph_laplacian_decomposition complete_pair_routine (svds_of_table [])
                 complete_pair_normalized None 0) = Inr (w, V) \<and>
          list_all (\<lambda>l. is_fin l \<and> 0 \<le> real_of l \<and> real_of l \<le> 1) (vdata w))"
proof -
  have look: "routine_result complete_pair_routine (svds_of_table []) complete_pair_normalized None 0
     = Inr (complete_pair_U, complete_pair_sigma, complete_pair_U)"
    by (simp add: routine_result_def complete_pair_routine_def svd_of_table_def)
  have run: "snd (hypergraph_laplacian_decomposition complete_pair_routine (svds_of_table [])
          complete_pair_normalized None 0)
     = Inr (\<lparr>vdtype = Float32, vdata = [Fin 0, Fin 1]\<rparr>, mastype Float32 complete_pair_U)"
    using look
    by (simp add: decomposition_absent routine_result_def spectrum_of_def vmap_def vastype_def
        complete_pair_sigma_def eigenvalue_of_Fin)
  have valid: "wf_mat (x complete_pair)"
      "length (vdata (weights_of complete_pair)) = ncols (x complete_pair)"
      "nonnegative_hypergraph complete_pair" "positive_degrees complete_pair"
    using complete_pair_valid by simp_all
  have "\<exists>w V. snd (hypergraph_laplacian_decomposition complete_pair_routine (svds_of_table [])
                 complete_pair_normalized None 0) = Inr (w, V) \<and>
          list_all (\<lambda>l. is_fin l \<and> 0 \<le> real_of l \<and> real_of l \<le> 1) (vdata w)"
    using eigenvalues_in_unit_interval [OF valid complete_pair_normalizes look complete_pair_triplets] .
  then show ?thesis
    using valid complete_pair_normalizes look complete_pair_triplets run by blast
qed

section \<open>The transform: the count requested from the decomposition\<close>

text \<open>The arguments of the calls of the decomposition in a log, in order.\<close>

fun decomposition_args :: "call \<Rightarrow> (mat \<times> int option \<times> real) option" where
  "decomposition_args (Decomposition_call inc num_ev tol) = Some (inc, num_ev, tol)"
| "decomposition_args _ = None"

definition solver_invocations :: "call list \<Rightarrow> (mat \<times> int option \<times> real) list" where
  "solver_invocations calls = List.map_filter decomposition_args calls"

text \<open>A collaborator that stores nothing and returns the data object.\<close>

definition setup_nothing :: "data \<Rightarrow> vec \<Rightarrow> mat \<Rightarrow> real \<Rightarrow> int option \<Rightarrow> error + data" where
  "setup_nothing dat w U threshold max_rank = Inr dat"

text \<open>
  Four nodes, each the only node of its own hyperedge: the normalized incidence is the
  identity matrix. The truncated solver is known for two triplets of it.
\<close>

definition four_singletons :: data where
  "four_singletons =
     \<lparr>x = \<lparr>mdtype = Float32, nrows = 4, ncols = 4,
            mrows = [[Fin 1, Fin 0, Fin 0, Fin 0],
                     [Fin 0, Fin 1, Fin 0, Fin 0],
                     [Fin 0, Fin 0, Fin 1, Fin 0],
                     [Fin 0, Fin 0, Fin 0, Fin 1]]\<rparr>,
      y = [0, 1, 0, 1],
      hyperedge_weight = None\<rparr>"

definition identity4_top2 :: svd_result where
  "identity4_top2 =
     (\<lparr>mdtype = Float64, nrows = 4, ncols = 2,
       mrows = [[Fin 1, Fin 0], [Fin 0, Fin 1], [Fin 0, Fin 0], [Fin 0, Fin 0]]\<rparr>,
      \<lparr>vdtype = Float64, vdata = [Fin 1, Fin 1]\<rparr>,
      \<lparr>mdtype = Float64, nrows = 2, ncols = 4,
       mrows = [[Fin 1, Fin 0, Fin 0, Fin 0], [Fin 0, Fin 1, Fin 0, Fin 0]]\<rparr>)"

definition identity4_solver :: svds_routine where
  "identity4_solver = svds_of_table [((identity4, 2), identity4_top2)]"

lemma call_decomposition_eq:
  "call_decomposition svd svds inc num_ev tol =
     ([Decomposition_call inc num_ev tol, routine_call inc num_ev tol],
      snd (hypergraph_laplacian_decomposition svd svds inc num_ev tol))"
proof -
  obtain calls res where d:
    "hypergraph_laplacian_decomposition svd svds inc num_ev tol = (calls, res)"
    by (cases "hypergraph_laplacian_decomposition svd svds inc num_ev tol")
  have "calls = [routine_call inc num_ev tol]"
    using decomposition_calls [of svd svds inc num_ev tol] d by simp
  then show ?thesis
    by (simp add: call_decomposition_def d)
qed

lemma transform_outcome:
  assumes "normalized_incidence dat = Inr inc"
  shows "HypergraphPinv_call svd svds setup_spectral_data self dat =
     (case snd (hypergraph_laplacian_decomposition svd svds inc (requested_num_ev self) (eig_tol self)) of
        Inl err \<Rightarrow>
          ([Normalize_call dat,
            Decomposition_call inc (requested_num_ev self) (eig_tol self),
            routine_call inc (requested_num_ev self) (eig_tol self)],
           Inl err)
      | Inr (w, U) \<Rightarrow>
          ([Normalize_call dat,
            Decomposition_call inc (requested_num_ev self) (eig_tol self),
            routine_call inc (requested_num_ev self) (eig_tol self),
            Setup_call dat w U (eig_threshold self) (rank self)],
           setup_spectral_data dat w U (eig_threshold self) (rank self)))"
  using assms
  by (simp add: HypergraphPinv_call_def call_decomposition_eq split: sum.split prod.split)

lemma transform_invocations:
  assumes "normalized_incidence dat = Inr inc"
  shows "solver_invocations (fst (HypergraphPinv_call svd svds setup_spectral_data self dat)) =
           [(inc, requested_num_ev self, eig_tol self)]"
  by (simp add: transform_outcome [OF assms] solver_invocations_def List.map_filter_def
      routine_call_def split: sum.split prod.split option.split)

lemma transform_no_invocation:
  assumes "normalized_incidence dat = Inl err"
  shows "solver_invocations (fst (HypergraphPinv_call svd svds setup_spectral_data self dat)) = []"
  using assms by (simp add: HypergraphPinv_call_def solver_invocations_def)

text \<open>
  C5. In a call of the transform on a data object that the normalization accepts, the
  decomposition is invoked once, on the normalized incidence and with the tolerance
  \<open>eig_tol\<close>: with the count \<open>k + 1\<close> when the rank is \<open>k\<close>, and with an absent count
  when the rank is \<open>None\<close>. The count is the one that the decomposition receives: the
  library call recorded is the one it makes for this count, and the spectrum handed to
  \<open>setup_spectral_data\<close>, or the error raised, is the one it returns for this count.
\<close>

theorem transform_requests_one_more:
  assumes "normalized_incidence dat = Inr inc"
  shows "(\<forall>k. rank self = Some k \<longrightarrow>
            solver_invocations (fst (HypergraphPinv_call svd svds setup_spectral_data self dat)) =
              [(inc, Some (k + 1), eig_tol self)] \<and>
            HypergraphPinv_call svd svds setup_spectral_data self dat =
              (case snd (hypergraph_laplacian_decomposition svd svds inc (Some (k + 1)) (eig_tol self)) of
                 Inl err \<Rightarrow>
                   ([Normalize_call dat,
                     Decomposition_call inc (Some (k + 1)) (eig_tol self),
                     routine_call inc (Some (k + 1)) (eig_tol self)],
                    Inl err)
               | Inr (w, U) \<Rightarrow>
                   ([Normalize_call dat,
                     Decomposition_call inc (Some (k + 1)) (eig_tol self),
                     routine_call inc (Some (k + 1)) (eig_tol self),
                     Setup_call dat w U (eig_threshold self) (Some k)],
                    setup_spectral_data dat w U (eig_threshold self) (Some k)))) \<and>
         (rank self = None \<longrightarrow>
            solver_invocations (fst (HypergraphPinv_call svd svds setup_spectral_data self dat)) =
              [(inc, None, eig_tol self)] \<and>
            HypergraphPinv_call svd svds setup_spectral_data self dat =
              (case snd (hypergraph_laplacian_decomposition svd svds inc None (eig_tol self)) of
                 Inl err \<Rightarrow>
                   ([Normalize_call dat,
                     Decomposition_call inc None (eig_tol self),
                     routine_call inc None (eig_tol self)],
                    Inl err)
               | Inr (w, U) \<Rightarrow>
                   ([Normalize_call dat,
                     Decomposition_call inc None (eig_tol self),
                     routine_call inc None (eig_tol self),
                     Setup_call dat w U (eig_threshold self) None],
                    setup_spectral_data dat w U (eig_threshold self) None)))"
proof (intro conjI allI impI)
  fix k assume k: "rank self = Some k"
  then have r: "requested_num_ev self = Some (k + 1)"
    by (simp add: requested_num_ev_def)
  show "solver_invocations (fst (HypergraphPinv_call svd svds setup_spectral_data self dat)) =
      [(inc, Some (k + 1), eig_tol self)]"
    using transform_invocations [OF assms, of svd svds setup_spectral_data self] r by simp
  show "HypergraphPinv_call svd svds setup_spectral_data self dat =
      (case snd (hypergraph_laplacian_decomposition svd svds inc (Some (k + 1)) (eig_tol self)) of
         Inl err \<Rightarrow>
           ([Normalize_call dat,
             Decomposition_call inc (Some (k + 1)) (eig_tol self),
             routine_call inc (Some (k + 1)) (eig_tol self)],
            Inl err)
       | Inr (w, U) \<Rightarrow>
           ([Normalize_call dat,
             Decomposition_call inc (Some (k + 1)) (eig_tol self),
             routine_call inc (Some (k + 1)) (eig_tol self),
             Setup_call dat w U (eig_threshold self) (Some k)],
            setup_spectral_data dat w U (eig_threshold self) (Some k)))"
    using transform_outcome [OF assms, of svd svds setup_spectral_data self] r k
    by (simp split: sum.split prod.split)
next
  assume n: "rank self = None"
  then have r: "requested_num_ev self = None"
    by (simp add: requested_num_ev_def)
  show "solver_invocations (fst (HypergraphPinv_call svd svds setup_spectral_data self dat)) =
      [(inc, None, eig_tol self)]"
    using transform_invocations [OF assms, of svd svds setup_spectral_data self] r by simp
  show "HypergraphPinv_call svd svds setup_spectral_data self dat =
      (case snd (hypergraph_laplacian_decomposition svd svds inc None (eig_tol self)) of
         Inl err \<Rightarrow>
           ([Normalize_call dat,
             Decomposition_call inc None (eig_tol self),
             routine_call inc None (eig_tol self)],
            Inl err)
       | Inr (w, U) \<Rightarrow>
           ([Normalize_call dat,
             Decomposition_call inc None (eig_tol self),
             routine_call inc None (eig_tol self),
             Setup_call dat w U (eig_threshold self) None],
            setup_spectral_data dat w U (eig_threshold self) None))"
    using transform_outcome [OF assms, of svd svds setup_spectral_data self] r n
    by (simp split: sum.split prod.split)
qed

lemma four_singletons_normalizes: "normalized_incidence four_singletons = Inr identity4"
  by (simp add: normalized_incidence_def four_singletons_def identity4_def weights_of_def
      matvec_def vecmat_def np_ones_def dot_def column_def vmap_def vmap2_def scale_rows_def
      scale_cols_def eval_nat_numeral upt_rec)

theorem transform_requests_one_more_witness:
  "normalized_incidence four_singletons = Inr identity4 \<and>
   rank \<lparr>rank = Some 1, eig_tol = 0, eig_threshold = 1 / 10 ^ 6\<rparr> = Some 1 \<and>
   solver_invocations
     (fst (HypergraphPinv_call (svd_of_table []) identity4_solver setup_nothing
            \<lparr>rank = Some 1, eig_tol = 0, eig_threshold = 1 / 10 ^ 6\<rparr> four_singletons))
     = [(identity4, Some 2, 0)] \<and>
   HypergraphPinv_call (svd_of_table []) identity4_solver setup_nothing
       \<lparr>rank = Some 1, eig_tol = 0, eig_threshold = 1 / 10 ^ 6\<rparr> four_singletons =
     ([Normalize_call four_singletons,
       Decomposition_call identity4 (Some 2) 0,
       Svds_call identity4 2 0,
       Setup_call four_singletons \<lparr>vdtype = Float32, vdata = [Fin 0, Fin 0]\<rparr>
         (mastype Float32 (fst identity4_top2)) (1 / 10 ^ 6) (Some 1)],
      Inr four_singletons)"
proof -
  let ?self = "\<lparr>rank = Some 1, eig_tol = 0, eig_threshold = 1 / 10 ^ 6\<rparr>"
  have m: "ncols identity4 = 4" by (simp add: identity4_def)
  have run: "snd (hypergraph_laplacian_decomposition (svd_of_table []) identity4_solver identity4
                (Some 2) 0)
      = Inr (\<lparr>vdtype = Float32, vdata = [Fin 0, Fin 0]\<rparr>, mastype Float32 (fst identity4_top2))"
    by (simp add: decomposition_small m identity4_solver_def svds_of_table_def identity4_top2_def
        spectrum_of_def vmap_def vastype_def eigenvalue_of_Fin)
  have rc: "routine_call identity4 (Some 2) 0 = Svds_call identity4 2 0"
    by (simp add: routine_call_def m)
  show ?thesis
    using transform_requests_one_more [OF four_singletons_normalizes,
        of ?self "svd_of_table []" identity4_solver setup_nothing]
    by (simp add: four_singletons_normalizes run rc setup_nothing_def solver_invocations_def
        List.map_filter_def)
qed

section \<open>Single precision\<close>

text \<open>
  The conversion of a real number to the nearest \<open>float32\<close> value (IEEE 754 binary32,
  round to nearest, ties to even): 24 significant bits, the exponent of a normal number
  between -126 and 127, subnormal numbers below, and overflow to infinity from
  \<open>2^128\<close> on. \<open>round_half_even\<close> rounds to the nearest integer.
\<close>

definition round_half_even :: "real \<Rightarrow> int" where
  "round_half_even t =
     (let f = \<lfloor>t\<rfloor>; d = t - real_of_int f
      in if d < 1 / 2 then f else if 1 / 2 < d then f + 1 else if even f then f else f + 1)"

definition round32 :: "real \<Rightarrow> npfloat" where
  "round32 t =
     (if t = 0 then Fin 0
      else (let e = max (- 126) \<lfloor>log 2 \<bar>t\<bar>\<rfloor>;
                q = 2 powr real_of_int (e - 23);
                r = real_of_int (round_half_even (t / q)) * q
            in if 2 ^ 128 \<le> \<bar>r\<bar> then inf_times t else Fin r))"

fun cast32 :: "npfloat \<Rightarrow> npfloat" where
  "cast32 (Fin t) = round32 t"
| "cast32 PInf = PInf"
| "cast32 NInf = NInf"
| "cast32 NaN = NaN"


lemma round_half_even_of_int [simp]: "round_half_even (real_of_int n) = n"
  by (simp add: round_half_even_def)



text \<open>
  The return statement \<open>1 - sigma.astype(np.float32)**2, U.astype(np.float32)\<close> in
  single precision: \<open>astype\<close> converts every element, and the square and the difference
  are \<open>float32\<close> operations, each the exact result converted. The sections above compute
  in exact arithmetic, where \<open>astype\<close> keeps the values.
\<close>

definition astype32_vec :: "vec \<Rightarrow> vec" where
  "astype32_vec v = \<lparr>vdtype = Float32, vdata = map cast32 (vdata v)\<rparr>"

definition astype32_mat :: "mat \<Rightarrow> mat" where
  "astype32_mat M =
     \<lparr>mdtype = Float32, nrows = nrows M, ncols = ncols M, mrows = map (map cast32) (mrows M)\<rparr>"

definition square32 :: "npfloat \<Rightarrow> npfloat" where
  "square32 s = cast32 (fmul s s)"

definition one_minus32 :: "npfloat \<Rightarrow> npfloat" where
  "one_minus32 s = cast32 (fsub (Fin 1) s)"

definition spectrum32 :: "mat \<Rightarrow> vec \<Rightarrow> vec \<times> mat" where
  "spectrum32 U sigma = (vmap one_minus32 (vmap square32 (astype32_vec sigma)), astype32_mat U)"

definition full_path32 :: "svd_routine \<Rightarrow> mat \<Rightarrow> int option \<Rightarrow> call list \<times> (error + vec \<times> mat)" where
  "full_path32 svd inc num_ev =
     ([Svd_call inc False],
      (case svd inc of
         Inl err \<Rightarrow> Inl (LibraryError err)
       | Inr (U, sigma, Vt) \<Rightarrow>
           (case num_ev of
              None \<Rightarrow> Inr (spectrum32 U sigma)
            | Some k \<Rightarrow> Inr (spectrum32 (slice_cols U k) (slice_vec sigma k)))))"

definition truncated_path32 :: "svds_routine \<Rightarrow> mat \<Rightarrow> int \<Rightarrow> real \<Rightarrow> call list \<times> (error + vec \<times> mat)" where
  "truncated_path32 svds inc k tol =
     ([Svds_call inc k tol],
      (case svds inc k tol of
         Inl err \<Rightarrow> Inl (LibraryError err)
       | Inr (U, sigma, Vt) \<Rightarrow> Inr (spectrum32 U sigma)))"

definition hypergraph_laplacian_decomposition32 ::
  "svd_routine \<Rightarrow> svds_routine \<Rightarrow> mat \<Rightarrow> int option \<Rightarrow> real \<Rightarrow> call list \<times> (error + vec \<times> mat)" where
  "hypergraph_laplacian_decomposition32 svd svds inc num_ev tol =
     (case num_ev of
        None \<Rightarrow> full_path32 svd inc None
      | Some k \<Rightarrow>
          if real_of_int k > real (ncols inc) / 2 then full_path32 svd inc (Some k)
          else truncated_path32 svds inc k tol)"





lemma decomposition32_calls:
  "fst (hypergraph_laplacian_decomposition32 svd svds inc num_ev tol) =
     fst (hypergraph_laplacian_decomposition svd svds inc num_ev tol)"
  by (simp add: hypergraph_laplacian_decomposition32_def hypergraph_laplacian_decomposition_def
      full_path32_def full_path_def truncated_path32_def truncated_path_def split: option.split)

text \<open>
  Where the conversion changes no singular value, no square, no difference and no entry
  of \<open>U\<close>, the return statement in single precision and the one in exact arithmetic
  give the same arrays.
\<close>

lemma spectrum32_exact:
  assumes "\<forall>s \<in> set (vdata sigma). cast32 s = s \<and> cast32 (fmul s s) = fmul s s
             \<and> cast32 (fsub (Fin 1) (fmul s s)) = fsub (Fin 1) (fmul s s)"
    and "\<forall>r \<in> set (mrows U). \<forall>a \<in> set r. cast32 a = a"
  shows "spectrum32 U sigma = spectrum_of U sigma"
proof -
  have "map (\<lambda>s. one_minus32 (square32 (cast32 s))) (vdata sigma) = map eigenvalue_of (vdata sigma)"
    using assms(1) by (intro map_cong) (simp_all add: one_minus32_def square32_def eigenvalue_of_def)
  moreover have "map (map cast32) (mrows U) = mrows U"
    using assms(2) by (simp add: map_idI)
  ultimately show ?thesis
    by (simp add: spectrum32_def spectrum_of_def vmap_def astype32_vec_def astype32_mat_def
        vastype_def mastype_def comp_def)
qed



end
